theory Spec2Isabelle
  imports Main "HOL-Library.Word" "HOL-Library.Sublist"
begin

section \<open>Strings of the source language\<close>

text \<open>
  A JavaScript string is a sequence of 16-bit code units.  The operations of
  \<^verbatim>\<open>index.js\<close> on strings (\<^verbatim>\<open>trim\<close>, \<^verbatim>\<open>startsWith\<close>, \<^verbatim>\<open>replace\<close>,
  template literals) are defined on code units, so the model keeps them.
\<close>

type_synonym jschar = "16 word"
type_synonym jsstring = "jschar list"

text \<open>An ASCII literal of the source, as code units.\<close>

definition lit :: "string \<Rightarrow> jsstring" where
  "lit s = map of_char s"

text \<open>
  White space and line terminators of ECMAScript: what \<^verbatim>\<open>String.prototype.trim\<close>
  removes and what \<^verbatim>\<open>\s\<close> matches in a regular expression.
\<close>

definition is_ws :: "jschar \<Rightarrow> bool" where
  "is_ws c \<longleftrightarrow>
     c = 0x09 \<or> c = 0x0A \<or> c = 0x0B \<or> c = 0x0C \<or> c = 0x0D \<or> c = 0x20 \<or>
     c = 0xA0 \<or> c = 0x1680 \<or> (0x2000 \<le> c \<and> c \<le> 0x200A) \<or>
     c = 0x2028 \<or> c = 0x2029 \<or> c = 0x202F \<or> c = 0x205F \<or> c = 0x3000 \<or>
     c = 0xFEFF"

text \<open>\<^verbatim>\<open>s.trim()\<close>\<close>

definition trim :: "jsstring \<Rightarrow> jsstring" where
  "trim s = rev (dropWhile is_ws (rev (dropWhile is_ws s)))"

text \<open>\<^verbatim>\<open>s.startsWith(p)\<close>\<close>

definition startsWith :: "jsstring \<Rightarrow> jsstring \<Rightarrow> bool" where
  "startsWith s p = prefix p s"

text \<open>
  \<^verbatim>\<open>s.replace(/^!\s*/, '')\<close>: the pattern is anchored at the start and has no
  flag, so it removes one leading \<^verbatim>\<open>!\<close> together with the white space that
  follows it, and nothing when the string does not start with \<^verbatim>\<open>!\<close>.
\<close>

fun replace_bang :: "jsstring \<Rightarrow> jsstring" where
  "replace_bang [] = []"
| "replace_bang (c # cs) = (if c = 0x21 then dropWhile is_ws cs else c # cs)"

text \<open>
  \<^verbatim>\<open>s.replace(pat, rep)\<close> with a string pattern: only the first occurrence of
  \<^verbatim>\<open>pat\<close> is replaced.  (The only replacement used by the source is the empty
  string, which has no \<^verbatim>\<open>$\<close> patterns.)
\<close>

fun replace_first :: "jsstring \<Rightarrow> jsstring \<Rightarrow> jsstring \<Rightarrow> jsstring" where
  "replace_first pat rep [] = (if pat = [] then rep else [])"
| "replace_first pat rep (c # cs) =
     (if prefix pat (c # cs) then rep @ drop (length pat) (c # cs)
      else c # replace_first pat rep cs)"

text \<open>The template literal \<^verbatim>\<open>`<@${client.user.id}>`\<close>.\<close>

definition mention :: "jsstring \<Rightarrow> jsstring" where
  "mention bot_id = lit ''<@'' @ bot_id @ lit ''>''"

text \<open>The nickname form of a mention, which the platform also delivers.\<close>

definition nick_mention :: "jsstring \<Rightarrow> jsstring" where
  "nick_mention bot_id = lit ''<@!'' @ bot_id @ lit ''>''"

text \<open>
  Line 161:
  \<^verbatim>\<open>msg.content.replace(/^!\s*/,'').replace(`<@${client.user.id}>`, "").trim()\<close>
\<close>

definition userText :: "jsstring \<Rightarrow> jsstring \<Rightarrow> jsstring" where
  "userText bot_id content =
     trim (replace_first (mention bot_id) [] (replace_bang content))"

section \<open>Data model\<close>

datatype role = System | User | Assistant

text \<open>A row of table \<^verbatim>\<open>messages\<close>.\<close>

record turn =
  row_id :: nat
  row_guild :: "jsstring option"
  row_channel :: jsstring
  row_user :: jsstring
  row_role :: role
  row_content :: jsstring
  row_created :: nat

text \<open>A row of table \<^verbatim>\<open>user_memory\<close>, without its key.\<close>

record memory =
  summary :: jsstring
  updated_at :: nat

text \<open>A \<^verbatim>\<open>{role, content}\<close> object, as selected from the store and as sent to the model.\<close>

record chat_message =
  role :: role
  content :: jsstring

text \<open>What the handler reads of an inbound message event.\<close>

record message =
  msg_author_bot :: bool
  msg_author_id :: jsstring
  msg_guildId :: "jsstring option"
  msg_channelId :: jsstring
  msg_content :: jsstring
  msg_mentions_bot :: bool

text \<open>
  Exceptions: a rejected store query, a rejected capability call, the
  \<^verbatim>\<open>TypeError\<close> of reading a property of \<^verbatim>\<open>undefined\<close> or \<^verbatim>\<open>null\<close>, a rejected
  \<^verbatim>\<open>channel.send\<close>.
\<close>

datatype error = StoreError | CapabilityError | TypeError | SendError

text \<open>
  The outcome of \<^verbatim>\<open>openai.chat.completions.create\<close>: a rejection, or a response
  whose \<^verbatim>\<open>choices\<close> carry a \<^verbatim>\<open>message.content\<close> each, which may be \<^verbatim>\<open>null\<close>.
\<close>

datatype llm_result = LlmFail | LlmResp "jsstring option list"

text \<open>
  Every call that leaves the process is recorded with its outcome, in order.
  Temperatures are in tenths.
\<close>

datatype event =
    EvInsertMessage "jsstring option" jsstring jsstring role jsstring bool
  | EvSelectRecent jsstring nat bool
  | EvSelectSummary jsstring bool
  | EvUpsertSummary jsstring jsstring bool
  | EvChat "chat_message list" nat llm_result
  | EvSend jsstring jsstring bool
  | EvLog error

record world =
  messages :: "turn list"
  next_id :: nat
  user_memory :: "jsstring \<rightharpoonup> memory"
  trace :: "event list"

text \<open>
  The collaborators are outside the program: whether the store answers, what
  the language model returns, whether the platform accepts a message and what
  the store's clock shows are given per call, the calls being numbered by
  their position in the trace.
\<close>

record env =
  db_up :: "nat \<Rightarrow> bool"
  llm_reply :: "nat \<Rightarrow> chat_message list \<Rightarrow> llm_result"
  send_ok :: "nat \<Rightarrow> bool"
  clock :: "nat \<Rightarrow> nat"

definition log_event :: "event \<Rightarrow> world \<Rightarrow> world" where
  "log_event e w = w\<lparr>trace := trace w @ [e]\<rparr>"

section \<open>The store\<close>

text \<open>
  \<^verbatim>\<open>insert into messages(guild_id, channel_id, user_id, role, content) values (...)\<close>:
  the identity comes from the sequence, the creation time from \<^verbatim>\<open>now()\<close>.
\<close>

definition insert_message ::
  "env \<Rightarrow> world \<Rightarrow> jsstring option \<Rightarrow> jsstring \<Rightarrow> jsstring \<Rightarrow> role \<Rightarrow> jsstring \<Rightarrow> (error + unit) \<times> world" where
  "insert_message env w g c u r t =
     (let n = length (trace w) in
      if db_up env n then
        (Inr (),
         log_event (EvInsertMessage g c u r t True)
           (w\<lparr>messages := messages w @
                 [\<lparr>row_id = next_id w, row_guild = g, row_channel = c, row_user = u,
                   row_role = r, row_content = t, row_created = clock env n\<rparr>],
              next_id := Suc (next_id w)\<rparr>))
      else (Inl StoreError, log_event (EvInsertMessage g c u r t False) w))"

text \<open>
  \<^verbatim>\<open>where channel_id = $1 order by id desc limit $2\<close>, on whole rows.
\<close>

definition recent_rows :: "turn list \<Rightarrow> jsstring \<Rightarrow> nat \<Rightarrow> turn list" where
  "recent_rows rows c n =
     take n (rev (sort_key row_id (filter (\<lambda>r. row_channel r = c) rows)))"

text \<open>\<^verbatim>\<open>select role, content\<close>\<close>

definition select_role_content :: "turn \<Rightarrow> chat_message" where
  "select_role_content r = \<lparr>role = row_role r, content = row_content r\<rparr>"

text \<open>Lines 44-52.  The source calls it with the limit 10 only.\<close>

definition fetchShortHistory ::
  "env \<Rightarrow> world \<Rightarrow> jsstring \<Rightarrow> nat \<Rightarrow> (error + chat_message list) \<times> world" where
  "fetchShortHistory env w channel_id limit =
     (if db_up env (length (trace w)) then
        (Inr (rev (map select_role_content (recent_rows (messages w) channel_id limit))),
         log_event (EvSelectRecent channel_id limit True) w)
      else (Inl StoreError, log_event (EvSelectRecent channel_id limit False) w))"

text \<open>Lines 54-57: \<^verbatim>\<open>rows[0]?.summary || ""\<close>.\<close>

definition fetchUserSummary :: "env \<Rightarrow> world \<Rightarrow> jsstring \<Rightarrow> (error + jsstring) \<times> world" where
  "fetchUserSummary env w user_id =
     (if db_up env (length (trace w)) then
        (Inr (case user_memory w user_id of None \<Rightarrow> [] | Some m \<Rightarrow> summary m),
         log_event (EvSelectSummary user_id True) w)
      else (Inl StoreError, log_event (EvSelectSummary user_id False) w))"

text \<open>
  \<^verbatim>\<open>insert into user_memory ... on conflict (user_id) do update set summary = $2, updated_at = now()\<close>
\<close>

definition upsert_summary :: "env \<Rightarrow> world \<Rightarrow> jsstring \<Rightarrow> jsstring \<Rightarrow> (error + unit) \<times> world" where
  "upsert_summary env w user_id s =
     (let n = length (trace w) in
      if db_up env n then
        (Inr (),
         log_event (EvUpsertSummary user_id s True)
           (w\<lparr>user_memory := (user_memory w)(user_id \<mapsto> \<lparr>summary = s, updated_at = clock env n\<rparr>)\<rparr>))
      else (Inl StoreError, log_event (EvUpsertSummary user_id s False) w))"

section \<open>The language model and the channel\<close>

text \<open>
  \<^verbatim>\<open>openai.chat.completions.create({model, messages, temperature})\<close> followed by
  \<^verbatim>\<open>resp.choices[0].message.content\<close>: no first choice, or a \<^verbatim>\<open>null\<close> content, is
  a \<^verbatim>\<open>TypeError\<close> at the property access that follows.
\<close>

definition first_content :: "llm_result \<Rightarrow> error + jsstring" where
  "first_content r =
     (case r of
        LlmFail \<Rightarrow> Inl CapabilityError
      | LlmResp [] \<Rightarrow> Inl TypeError
      | LlmResp (None # _) \<Rightarrow> Inl TypeError
      | LlmResp (Some t # _) \<Rightarrow> Inr t)"

definition chat_content ::
  "env \<Rightarrow> world \<Rightarrow> chat_message list \<Rightarrow> nat \<Rightarrow> (error + jsstring) \<times> world" where
  "chat_content env w msgs temperature =
     (let r = llm_reply env (length (trace w)) msgs
      in (first_content r, log_event (EvChat msgs temperature r) w))"

text \<open>\<^verbatim>\<open>msg.channel.send(text)\<close>\<close>

definition channel_send :: "env \<Rightarrow> world \<Rightarrow> jsstring \<Rightarrow> jsstring \<Rightarrow> (error + unit) \<times> world" where
  "channel_send env w channel_id t =
     (if send_ok env (length (trace w)) then (Inr (), log_event (EvSend channel_id t True) w)
      else (Inl SendError, log_event (EvSend channel_id t False) w))"

text \<open>\<^verbatim>\<open>console.error(err)\<close>\<close>

definition console_error :: "world \<Rightarrow> error \<Rightarrow> world" where
  "console_error w err = log_event (EvLog err) w"

section \<open>Long-term memory\<close>

text \<open>\<^verbatim>\<open>a || b\<close> on strings: the empty string is falsy.\<close>

definition or_else :: "jsstring \<Rightarrow> jsstring \<Rightarrow> jsstring" where
  "or_else a b = (if a = [] then b else a)"

definition none_marker :: jsstring where
  "none_marker = lit ''(none)''"

definition dq :: jsstring where
  "dq = [0x22]"

definition nl :: jsstring where
  "nl = [0x0A]"

text \<open>Lines 61-62.\<close>

definition summary_system :: jsstring where
  "summary_system =
     lit ''You write ONE short bullet capturing stable, helpful facts about the user for future chats.''
     @ nl @
     lit ''Keep it under 40 words. If nothing new, return the existing summary unchanged.''"

text \<open>Lines 64-66.\<close>

definition summary_prompt :: "jsstring \<Rightarrow> jsstring \<Rightarrow> jsstring" where
  "summary_prompt current interactionText =
     lit ''Current summary: '' @ dq @ or_else current none_marker @ dq @ nl @
     lit ''New message from user: '' @ dq @ interactionText @ dq @ nl @
     lit ''Return: one-sentence updated summary ONLY.''"

definition summary_messages :: "jsstring \<Rightarrow> jsstring \<Rightarrow> chat_message list" where
  "summary_messages current interactionText =
     [\<lparr>role = System, content = summary_system\<rparr>,
      \<lparr>role = User, content = summary_prompt current interactionText\<rparr>]"

text \<open>Lines 59-81.\<close>

definition upsertUserSummary ::
  "env \<Rightarrow> world \<Rightarrow> jsstring \<Rightarrow> jsstring \<Rightarrow> (error + jsstring) \<times> world" where
  "upsertUserSummary env w user_id interactionText =
     (case fetchUserSummary env w user_id of
        (Inl e, w1) \<Rightarrow> (Inl e, w1)
      | (Inr current, w1) \<Rightarrow>
          (case chat_content env w1 (summary_messages current interactionText) 2 of
             (Inl e, w2) \<Rightarrow> (Inl e, w2)
           | (Inr c, w2) \<Rightarrow>
               (let updated = trim c in
                case upsert_summary env w2 user_id updated of
                  (Inl e, w3) \<Rightarrow> (Inl e, w3)
                | (Inr _, w3) \<Rightarrow> (Inr updated, w3))))"

section \<open>Reply generation\<close>

text \<open>Lines 88-89; the apostrophe is U+2019.\<close>

definition persona :: jsstring where
  "persona =
     lit ''You are an upbeat, helpful coding assistant living in a small Discord server called ''
     @ dq @ lit ''jeljel6'' @ [0x2019] @ lit ''s Dev Server'' @ dq @ lit ''.'' @ nl @
     lit ''Keep answers concise, accurate, and friendly. Prefer code blocks and minimal steps.''"

text \<open>Lines 91-96.\<close>

definition reply_messages :: "jsstring \<Rightarrow> chat_message list \<Rightarrow> jsstring \<Rightarrow> chat_message list" where
  "reply_messages summ short text =
     [\<lparr>role = System, content = persona\<rparr>,
      \<lparr>role = System, content = lit ''User long-term memory: '' @ or_else summ none_marker\<rparr>]
     @ map (\<lambda>m. \<lparr>role = role m, content = content m\<rparr>) short
     @ [\<lparr>role = User, content = text\<rparr>]"

text \<open>Lines 84-107.  The guild identifier is passed and not used.\<close>

definition generateReply ::
  "env \<Rightarrow> world \<Rightarrow> jsstring option \<Rightarrow> jsstring \<Rightarrow> jsstring \<Rightarrow> jsstring \<Rightarrow> (error + jsstring) \<times> world" where
  "generateReply env w guild_id channel_id user_id text =
     (case fetchShortHistory env w channel_id 10 of
        (Inl e, w1) \<Rightarrow> (Inl e, w1)
      | (Inr short, w1) \<Rightarrow>
          (case fetchUserSummary env w1 user_id of
             (Inl e, w2) \<Rightarrow> (Inl e, w2)
           | (Inr summ, w2) \<Rightarrow>
               (case chat_content env w2 (reply_messages summ short text) 4 of
                  (Inl e, w3) \<Rightarrow> (Inl e, w3)
                | (Inr c, w3) \<Rightarrow> (Inr (trim c), w3))))"

section \<open>The message handler\<close>

text \<open>Line 185; the dash is U+2014.\<close>

definition apology :: jsstring where
  "apology = lit ''Oops'' @ [0x2014] @ lit ''something went wrong. Try again in a moment.''"

text \<open>
  Line 158.  Whether \<^verbatim>\<open>msg.mentions.has(client.user)\<close> holds is decided by the
  platform library and arrives with the event.
\<close>

definition addressed :: "message \<Rightarrow> bool" where
  "addressed msg \<longleftrightarrow> msg_mentions_bot msg \<or> startsWith (msg_content msg) (lit ''!'')"

text \<open>The body of the \<^verbatim>\<open>try\<close> block, lines 165-182.\<close>

definition answer :: "env \<Rightarrow> jsstring \<Rightarrow> world \<Rightarrow> message \<Rightarrow> jsstring \<Rightarrow> (error + unit) \<times> world" where
  "answer env bot_id w msg text =
     (case generateReply env w (msg_guildId msg) (msg_channelId msg) (msg_author_id msg) text of
        (Inl e, w1) \<Rightarrow> (Inl e, w1)
      | (Inr reply, w1) \<Rightarrow>
          (case channel_send env w1 (msg_channelId msg) reply of
             (Inl e, w2) \<Rightarrow> (Inl e, w2)
           | (Inr _, w2) \<Rightarrow>
               (case insert_message env w2 (msg_guildId msg) (msg_channelId msg) bot_id Assistant reply of
                  (Inl e, w3) \<Rightarrow> (Inl e, w3)
                | (Inr _, w3) \<Rightarrow>
                    (case upsertUserSummary env w3 (msg_author_id msg) (msg_content msg) of
                       (Inl e, w4) \<Rightarrow> (Inl e, w4)
                     | (Inr _, w4) \<Rightarrow> (Inr (), w4)))))"

text \<open>The \<^verbatim>\<open>catch\<close> block, lines 183-186.\<close>

definition recover :: "env \<Rightarrow> world \<Rightarrow> message \<Rightarrow> error \<Rightarrow> (error + unit) \<times> world" where
  "recover env w msg err = channel_send env (console_error w err) (msg_channelId msg) apology"

text \<open>
  Lines 147-187.  \<open>Inl\<close> is a rejection of the handler's promise, \<open>Inr\<close> its
  completion.
\<close>

definition messageCreate :: "env \<Rightarrow> jsstring \<Rightarrow> world \<Rightarrow> message \<Rightarrow> (error + unit) \<times> world" where
  "messageCreate env bot_id w msg =
     (if msg_author_bot msg then (Inr (), w)
      else
        (case insert_message env w (msg_guildId msg) (msg_channelId msg) (msg_author_id msg)
                User (msg_content msg) of
           (Inl e, w1) \<Rightarrow> (Inl e, w1)
         | (Inr _, w1) \<Rightarrow>
             if \<not> addressed msg then (Inr (), w1)
             else
               (let text = userText bot_id (msg_content msg) in
                if text = [] then (Inr (), w1)
                else
                  (case answer env bot_id w1 msg text of
                     (Inr _, w2) \<Rightarrow> (Inr (), w2)
                   | (Inl err, w2) \<Rightarrow> recover env w2 msg err))))"

section \<open>Observing a run\<close>

text \<open>Classes of recorded calls.\<close>

fun is_send :: "event \<Rightarrow> bool" where
  "is_send (EvSend _ _ _) = True"
| "is_send _ = False"

fun is_upsert :: "event \<Rightarrow> bool" where
  "is_upsert (EvUpsertSummary _ _ _) = True"
| "is_upsert _ = False"

fun is_insert :: "event \<Rightarrow> bool" where
  "is_insert (EvInsertMessage _ _ _ _ _ _) = True"
| "is_insert _ = False"

text \<open>The call of the summarizer is the one made with temperature 0.2.\<close>

fun is_summarize :: "event \<Rightarrow> bool" where
  "is_summarize (EvChat _ t _) = (t = 2)"
| "is_summarize _ = False"

text \<open>The calls made between two worlds of one execution.\<close>

definition run :: "world \<Rightarrow> world \<Rightarrow> event list" where
  "run w w' = drop (length (trace w)) (trace w')"

text \<open>The trace and the table of messages are only ever extended.\<close>

definition grows :: "world \<Rightarrow> world \<Rightarrow> bool" where
  "grows w w' \<longleftrightarrow> prefix (trace w) (trace w') \<and> prefix (messages w) (messages w')"

text \<open>
  The primary key of table \<^verbatim>\<open>messages\<close>: identities are unique and below the next
  value of the sequence.
\<close>

definition ids_fresh :: "world \<Rightarrow> bool" where
  "ids_fresh w \<longleftrightarrow>
     distinct (map row_id (messages w)) \<and> list_all (\<lambda>r. row_id r < next_id w) (messages w)"

text \<open>The row and the call of the insert at lines 151-155.\<close>

definition user_row :: "env \<Rightarrow> world \<Rightarrow> message \<Rightarrow> turn" where
  "user_row env w msg =
     \<lparr>row_id = next_id w, row_guild = msg_guildId msg, row_channel = msg_channelId msg,
      row_user = msg_author_id msg, row_role = User, row_content = msg_content msg,
      row_created = clock env (length (trace w))\<rparr>"

definition user_insert :: "message \<Rightarrow> bool \<Rightarrow> event" where
  "user_insert msg ok =
     EvInsertMessage (msg_guildId msg) (msg_channelId msg) (msg_author_id msg) User (msg_content msg) ok"

text \<open>The row of the insert at lines 175-179.\<close>

definition assistant_row :: "env \<Rightarrow> jsstring \<Rightarrow> world \<Rightarrow> message \<Rightarrow> jsstring \<Rightarrow> turn" where
  "assistant_row env bot_id w msg reply =
     \<lparr>row_id = next_id w, row_guild = msg_guildId msg, row_channel = msg_channelId msg,
      row_user = bot_id, row_role = Assistant, row_content = reply,
      row_created = clock env (length (trace w))\<rparr>"

section \<open>Example inputs\<close>

definition bot0 :: jsstring where
  "bot0 = lit ''42''"

definition env_ok :: env where
  "env_ok = \<lparr>db_up = (\<lambda>_. True), llm_reply = (\<lambda>_ _. LlmResp [Some (lit '' hello '')]),
             send_ok = (\<lambda>_. True), clock = (\<lambda>n. 100 + n)\<rparr>"

definition env_llm_down :: env where
  "env_llm_down = \<lparr>db_up = (\<lambda>_. True), llm_reply = (\<lambda>_ _. LlmFail),
             send_ok = (\<lambda>_. True), clock = (\<lambda>n. 100 + n)\<rparr>"

definition w_hist :: world where
  "w_hist =
     \<lparr>messages =
        [\<lparr>row_id = 3, row_guild = None, row_channel = lit ''c'', row_user = bot0,
          row_role = Assistant, row_content = lit ''b'', row_created = 30\<rparr>,
         \<lparr>row_id = 1, row_guild = None, row_channel = lit ''c'', row_user = lit ''7'',
          row_role = User, row_content = lit ''a'', row_created = 10\<rparr>,
         \<lparr>row_id = 2, row_guild = None, row_channel = lit ''d'', row_user = lit ''8'',
          row_role = User, row_content = lit ''x'', row_created = 20\<rparr>,
         \<lparr>row_id = 5, row_guild = None, row_channel = lit ''c'', row_user = lit ''7'',
          row_role = User, row_content = lit ''e'', row_created = 50\<rparr>],
      next_id = 6,
      user_memory = [lit ''8'' \<mapsto> \<lparr>summary = lit ''likes Rust'', updated_at = 20\<rparr>],
      trace = []\<rparr>"

definition msg_hi :: message where
  "msg_hi = \<lparr>msg_author_bot = False, msg_author_id = lit ''7'', msg_guildId = None,
              msg_channelId = lit ''c'', msg_content = lit ''! hi <@42>'', msg_mentions_bot = True\<rparr>"

definition msg_chat :: message where
  "msg_chat = \<lparr>msg_author_bot = False, msg_author_id = lit ''7'', msg_guildId = None,
              msg_channelId = lit ''c'', msg_content = lit ''just chatting'', msg_mentions_bot = False\<rparr>"

definition msg_bare :: message where
  "msg_bare = \<lparr>msg_author_bot = False, msg_author_id = lit ''7'', msg_guildId = None,
              msg_channelId = lit ''c'', msg_content = lit ''!  <@42> '', msg_mentions_bot = True\<rparr>"

text \<open>The summarizer call (the eighth call of a run from an empty trace) is rejected.\<close>

definition env_sum_down :: env where
  "env_sum_down = \<lparr>db_up = (\<lambda>_. True),
             llm_reply = (\<lambda>n _. if n = 7 then LlmFail else LlmResp [Some (lit '' hello '')]),
             send_ok = (\<lambda>_. True), clock = (\<lambda>n. 100 + n)\<rparr>"

text \<open>The worlds between the steps of the handler, for the examples.\<close>

definition stage1 :: "env \<Rightarrow> world \<Rightarrow> message \<Rightarrow> world" where
  "stage1 env w msg =
     snd (insert_message env w (msg_guildId msg) (msg_channelId msg) (msg_author_id msg)
            User (msg_content msg))"

definition stage2 :: "env \<Rightarrow> jsstring \<Rightarrow> world \<Rightarrow> message \<Rightarrow> world" where
  "stage2 env bot_id w msg =
     snd (generateReply env (stage1 env w msg) (msg_guildId msg) (msg_channelId msg)
            (msg_author_id msg) (userText bot_id (msg_content msg)))"

definition stage3 :: "env \<Rightarrow> jsstring \<Rightarrow> world \<Rightarrow> message \<Rightarrow> jsstring \<Rightarrow> world" where
  "stage3 env bot_id w msg reply =
     snd (channel_send env (stage2 env bot_id w msg) (msg_channelId msg) reply)"

definition stage4 :: "env \<Rightarrow> jsstring \<Rightarrow> world \<Rightarrow> message \<Rightarrow> jsstring \<Rightarrow> world" where
  "stage4 env bot_id w msg reply =
     snd (insert_message env (stage3 env bot_id w msg reply) (msg_guildId msg) (msg_channelId msg)
            bot_id Assistant reply)"

definition stage5 :: "env \<Rightarrow> jsstring \<Rightarrow> world \<Rightarrow> message \<Rightarrow> jsstring \<Rightarrow> world" where
  "stage5 env bot_id w msg reply =
     snd (fetchUserSummary env (stage4 env bot_id w msg reply) (msg_author_id msg))"

definition stage6 :: "env \<Rightarrow> jsstring \<Rightarrow> world \<Rightarrow> message \<Rightarrow> jsstring \<Rightarrow> jsstring \<Rightarrow> world" where
  "stage6 env bot_id w msg reply current =
     snd (chat_content env (stage5 env bot_id w msg reply)
            (summary_messages current (msg_content msg)) 2)"

text \<open>The summarizer returns the stored summary of user 8, with white space around it.\<close>

definition env_same :: env where
  "env_same = \<lparr>db_up = (\<lambda>_. True),
             llm_reply = (\<lambda>_ _. LlmResp [Some (lit '' likes Rust'' @ nl)]),
             send_ok = (\<lambda>_. True), clock = (\<lambda>n. 100 + n)\<rparr>"

text \<open>Responses of the language model without a usable text.\<close>

definition env_blank :: env where
  "env_blank = \<lparr>db_up = (\<lambda>_. True), llm_reply = (\<lambda>_ _. LlmResp [Some (lit ''  '' @ nl)]),
             send_ok = (\<lambda>_. True), clock = (\<lambda>n. 100 + n)\<rparr>"

definition env_no_choice :: env where
  "env_no_choice = \<lparr>db_up = (\<lambda>_. True), llm_reply = (\<lambda>_ _. LlmResp []),
             send_ok = (\<lambda>_. True), clock = (\<lambda>n. 100 + n)\<rparr>"

definition env_null :: env where
  "env_null = \<lparr>db_up = (\<lambda>_. True), llm_reply = (\<lambda>_ _. LlmResp [None]),
             send_ok = (\<lambda>_. True), clock = (\<lambda>n. 100 + n)\<rparr>"

text \<open>The short history of channel \<^verbatim>\<open>c\<close> and the worlds after the two reads.\<close>

definition ctx_c :: "chat_message list" where
  "ctx_c = [\<lparr>role = User, content = lit ''a''\<rparr>, \<lparr>role = Assistant, content = lit ''b''\<rparr>,
            \<lparr>role = User, content = lit ''e''\<rparr>]"

definition w_read1 :: world where
  "w_read1 = log_event (EvSelectRecent (lit ''c'') 10 True) w_hist"

definition w_read2 :: world where
  "w_read2 = log_event (EvSelectSummary (lit ''7'') True) w_read1"

text \<open>A message addressed by the nickname form of the mention only.\<close>

definition msg_nick :: message where
  "msg_nick = \<lparr>msg_author_bot = False, msg_author_id = lit ''7'', msg_guildId = None,
              msg_channelId = lit ''c'', msg_content = lit ''<@!42> hi'', msg_mentions_bot = True\<rparr>"

definition ctx_nick :: "chat_message list" where
  "ctx_nick = ctx_c @ [\<lparr>role = User, content = lit ''<@!42> hi''\<rparr>]"

definition w_nick2 :: world where
  "w_nick2 = log_event (EvSelectRecent (lit ''c'') 10 True) (stage1 env_ok w_hist msg_nick)"

definition w_nick3 :: world where
  "w_nick3 = log_event (EvSelectSummary (lit ''7'') True) w_nick2"

section \<open>Properties\<close>

text \<open>Unfolding sets for evaluating the functions on concrete inputs.\<close>

lemmas store_defs = insert_message_def fetchShortHistory_def fetchUserSummary_def upsert_summary_def
  recent_rows_def select_role_content_def log_event_def

lemmas call_defs = chat_content_def first_content_def channel_send_def console_error_def

lemmas handler_defs = messageCreate_def answer_def recover_def generateReply_def upsertUserSummary_def
  addressed_def startsWith_def userText_def mention_def trim_def is_ws_def lit_def Let_def

lemmas example_defs = bot0_def env_ok_def env_llm_down_def w_hist_def msg_hi_def msg_chat_def
  msg_bare_def

subsection \<open>Worlds only grow\<close>

lemma grows_refl: "grows w w"
  by (simp add: grows_def)

lemma grows_trans: "grows a b \<Longrightarrow> grows b c \<Longrightarrow> grows a c"
  by (auto simp: grows_def)

lemma insert_message_grows: "insert_message env w g c u r t = (x, w') \<Longrightarrow> grows w w'"
  by (auto simp: insert_message_def grows_def log_event_def Let_def split: if_splits)

lemma fetchShortHistory_grows: "fetchShortHistory env w c n = (x, w') \<Longrightarrow> grows w w'"
  by (auto simp: fetchShortHistory_def grows_def log_event_def split: if_splits)

lemma fetchUserSummary_grows: "fetchUserSummary env w u = (x, w') \<Longrightarrow> grows w w'"
  by (auto simp: fetchUserSummary_def grows_def log_event_def split: if_splits)

lemma upsert_summary_grows: "upsert_summary env w u s = (x, w') \<Longrightarrow> grows w w'"
  by (auto simp: upsert_summary_def grows_def log_event_def Let_def split: if_splits)

lemma chat_content_grows: "chat_content env w ms t = (x, w') \<Longrightarrow> grows w w'"
  by (auto simp: chat_content_def grows_def log_event_def Let_def)

lemma channel_send_grows: "channel_send env w c t = (x, w') \<Longrightarrow> grows w w'"
  by (auto simp: channel_send_def grows_def log_event_def split: if_splits)

lemma console_error_grows: "grows w (console_error w e)"
  by (simp add: console_error_def grows_def log_event_def)

lemma generateReply_grows: "generateReply env w g c u t = (x, w') \<Longrightarrow> grows w w'"
  unfolding generateReply_def
  by (auto split: prod.splits sum.splits
      dest!: fetchShortHistory_grows fetchUserSummary_grows chat_content_grows
      intro: grows_trans)

lemma upsertUserSummary_grows: "upsertUserSummary env w u t = (x, w') \<Longrightarrow> grows w w'"
  unfolding upsertUserSummary_def Let_def
  by (auto split: prod.splits sum.splits
      dest!: fetchUserSummary_grows chat_content_grows upsert_summary_grows
      intro: grows_trans)

lemma answer_grows: "answer env b w msg t = (x, w') \<Longrightarrow> grows w w'"
  unfolding answer_def
  by (auto split: prod.splits sum.splits
      dest!: generateReply_grows channel_send_grows insert_message_grows upsertUserSummary_grows
      intro: grows_trans)

lemma recover_grows: "recover env w msg e = (x, w') \<Longrightarrow> grows w w'"
  unfolding recover_def
  by (blast intro: grows_trans console_error_grows dest: channel_send_grows)

lemma messageCreate_after_insert:
  assumes "insert_message env w (msg_guildId msg) (msg_channelId msg) (msg_author_id msg)
             User (msg_content msg) = (Inr (), w1)"
    and "\<not> msg_author_bot msg"
  shows "grows w1 (snd (messageCreate env b w msg))"
proof -
  obtain x w' where run: "messageCreate env b w msg = (x, w')"
    by (cases "messageCreate env b w msg")
  have "grows w1 w'"
    using run assms
    by (auto simp: messageCreate_def Let_def grows_refl split: if_splits prod.splits sum.splits
        dest!: answer_grows recover_grows intro: grows_trans)
  then show ?thesis by (simp add: run)
qed

lemma insert_message_up:
  "db_up env (length (trace w)) \<Longrightarrow>
   insert_message env w g c u r t =
     (Inr (),
      w\<lparr>messages := messages w @
           [\<lparr>row_id = next_id w, row_guild = g, row_channel = c, row_user = u,
             row_role = r, row_content = t, row_created = clock env (length (trace w))\<rparr>],
        next_id := Suc (next_id w),
        trace := trace w @ [EvInsertMessage g c u r t True]\<rparr>)"
  by (simp add: insert_message_def log_event_def Let_def)

lemma insert_message_down:
  "\<not> db_up env (length (trace w)) \<Longrightarrow>
   insert_message env w g c u r t =
     (Inl StoreError, w\<lparr>trace := trace w @ [EvInsertMessage g c u r t False]\<rparr>)"
  by (simp add: insert_message_def log_event_def Let_def)

lemma insert_message_Inr:
  "insert_message env w g c u r t = (Inr x, w') \<Longrightarrow>
   db_up env (length (trace w)) \<and>
   w' = w\<lparr>messages := messages w @
           [\<lparr>row_id = next_id w, row_guild = g, row_channel = c, row_user = u,
             row_role = r, row_content = t, row_created = clock env (length (trace w))\<rparr>],
        next_id := Suc (next_id w),
        trace := trace w @ [EvInsertMessage g c u r t True]\<rparr>"
  by (auto simp: insert_message_def log_event_def Let_def split: if_splits)

lemma channel_send_Inr:
  "channel_send env w c t = (Inr x, w') \<Longrightarrow>
   send_ok env (length (trace w)) \<and> w' = w\<lparr>trace := trace w @ [EvSend c t True]\<rparr>"
  by (auto simp: channel_send_def log_event_def split: if_splits)

lemma fetchUserSummary_Inr:
  "fetchUserSummary env w u = (Inr s, w') \<Longrightarrow>
   db_up env (length (trace w)) \<and>
   s = (case user_memory w u of None \<Rightarrow> [] | Some m \<Rightarrow> summary m) \<and>
   w' = w\<lparr>trace := trace w @ [EvSelectSummary u True]\<rparr>"
  by (auto simp: fetchUserSummary_def log_event_def split: if_splits)

lemma chat_content_world:
  "chat_content env w ms t = (x, w') \<Longrightarrow>
   x = first_content (llm_reply env (length (trace w)) ms) \<and>
   w' = w\<lparr>trace := trace w @ [EvChat ms t (llm_reply env (length (trace w)) ms)]\<rparr>"
  by (auto simp: chat_content_def log_event_def Let_def)

lemma recover_world:
  "recover env w msg err =
     (if send_ok env (Suc (length (trace w))) then Inr () else Inl SendError,
      w\<lparr>trace := trace w @ [EvLog err,
           EvSend (msg_channelId msg) apology (send_ok env (Suc (length (trace w))))]\<rparr>)"
  by (simp add: recover_def channel_send_def console_error_def log_event_def)

lemma generateReply_reads:
  assumes "generateReply env w g c u t = (x, w')"
  shows "messages w' = messages w \<and> user_memory w' = user_memory w \<and> next_id w' = next_id w
    \<and> prefix (trace w) (trace w')
    \<and> filter is_insert (run w w') = [] \<and> filter is_upsert (run w w') = []
    \<and> filter is_summarize (run w w') = [] \<and> filter is_send (run w w') = []"
  using assms
  by (auto simp: generateReply_def fetchShortHistory_def fetchUserSummary_def chat_content_def
      log_event_def run_def Let_def split: if_splits sum.splits)

subsection \<open>Identities stay unique\<close>

lemma insert_message_ids_fresh:
  assumes "ids_fresh w" and "insert_message env w g c u r t = (x, w')"
  shows "ids_fresh w'"
proof (cases "db_up env (length (trace w))")
  case True
  have below: "\<forall>a \<in> set (messages w). row_id a < next_id w"
    using assms(1) by (simp add: ids_fresh_def list_all_iff)
  then have "next_id w \<notin> row_id ` set (messages w)"
    by auto
  moreover have "\<forall>a \<in> set (messages w). row_id a < Suc (next_id w)"
    using below by (simp add: less_SucI)
  ultimately show ?thesis
    using assms True by (auto simp: insert_message_up ids_fresh_def list_all_iff)
next
  case False
  then show ?thesis
    using assms by (auto simp: insert_message_down ids_fresh_def)
qed

lemma channel_send_ids_fresh:
  "ids_fresh w \<Longrightarrow> channel_send env w c t = (x, w') \<Longrightarrow> ids_fresh w'"
  by (auto simp: channel_send_def log_event_def ids_fresh_def split: if_splits)

lemma generateReply_ids_fresh:
  "ids_fresh w \<Longrightarrow> generateReply env w g c u t = (x, w') \<Longrightarrow> ids_fresh w'"
  by (auto dest!: generateReply_reads simp: ids_fresh_def)

lemma upsertUserSummary_ids_fresh:
  "ids_fresh w \<Longrightarrow> upsertUserSummary env w u t = (x, w') \<Longrightarrow> ids_fresh w'"
  by (auto simp: upsertUserSummary_def fetchUserSummary_def chat_content_def upsert_summary_def
      log_event_def Let_def ids_fresh_def split: if_splits sum.splits)

lemma recover_ids_fresh:
  "ids_fresh w \<Longrightarrow> recover env w msg e = (x, w') \<Longrightarrow> ids_fresh w'"
  by (auto simp: recover_world ids_fresh_def)

lemma answer_ids_fresh:
  assumes fresh: "ids_fresh w" and ans: "answer env b w msg t = (x, w')"
  shows "ids_fresh w'"
proof -
  obtain r1 w1 where g: "generateReply env w (msg_guildId msg) (msg_channelId msg)
      (msg_author_id msg) t = (r1, w1)"
    by (cases "generateReply env w (msg_guildId msg) (msg_channelId msg) (msg_author_id msg) t")
  have f1: "ids_fresh w1"
    using fresh g by (rule generateReply_ids_fresh)
  show ?thesis
  proof (cases r1)
    case Inl
    then show ?thesis
      using ans g f1 by (simp add: answer_def)
  next
    case (Inr reply)
    obtain r2 w2 where s: "channel_send env w1 (msg_channelId msg) reply = (r2, w2)"
      by (cases "channel_send env w1 (msg_channelId msg) reply")
    have f2: "ids_fresh w2"
      using f1 s by (rule channel_send_ids_fresh)
    obtain r3 w3 where k: "insert_message env w2 (msg_guildId msg) (msg_channelId msg) b
        Assistant reply = (r3, w3)"
      by (cases "insert_message env w2 (msg_guildId msg) (msg_channelId msg) b Assistant reply")
    have f3: "ids_fresh w3"
      using f2 k by (rule insert_message_ids_fresh)
    obtain r4 w4 where u: "upsertUserSummary env w3 (msg_author_id msg) (msg_content msg) = (r4, w4)"
      by (cases "upsertUserSummary env w3 (msg_author_id msg) (msg_content msg)")
    have f4: "ids_fresh w4"
      using f3 u by (rule upsertUserSummary_ids_fresh)
    have "w' = w2 \<or> w' = w3 \<or> w' = w4"
      using ans g Inr s k u by (auto simp: answer_def split: sum.splits)
    then show ?thesis
      using f2 f3 f4 by blast
  qed
qed

lemma messageCreate_ids_fresh:
  assumes fresh: "ids_fresh w" and final: "messageCreate env b w msg = (x, w')"
  shows "ids_fresh w'"
proof -
  obtain y w1 where ins: "insert_message env w (msg_guildId msg) (msg_channelId msg)
      (msg_author_id msg) User (msg_content msg) = (y, w1)"
    by (cases "insert_message env w (msg_guildId msg) (msg_channelId msg)
      (msg_author_id msg) User (msg_content msg)")
  have f1: "ids_fresh w1"
    using fresh ins by (rule insert_message_ids_fresh)
  obtain z w2 where ans: "answer env b w1 msg (userText b (msg_content msg)) = (z, w2)"
    by (cases "answer env b w1 msg (userText b (msg_content msg))")
  have f2: "ids_fresh w2"
    using f1 ans by (rule answer_ids_fresh)
  have "w' = w \<or> w' = w1 \<or> w' = w2 \<or> (\<exists>e r. recover env w2 msg e = (r, w'))"
    using final ins ans
    by (auto simp: messageCreate_def Let_def split: if_splits sum.splits)
  then show ?thesis
    using fresh f1 f2 by (auto intro: recover_ids_fresh)
qed

lemma ids_fresh_distinct: "ids_fresh w \<Longrightarrow> distinct (map row_id (messages w))"
  by (simp add: ids_fresh_def)

subsection \<open>Short-term context\<close>

lemma rev_recent_rows:
  "rev (recent_rows rows c n) =
     drop (length (filter (\<lambda>r. row_channel r = c) rows) - n)
       (sort_key row_id (filter (\<lambda>r. row_channel r = c) rows))"
  by (simp add: recent_rows_def rev_take)

lemma channel_rows_strictly_sorted:
  assumes "distinct (map row_id rows)"
  shows "sorted_wrt (\<lambda>a b. row_id a < row_id b) (sort_key row_id (filter P rows))"
proof -
  let ?xs = "sort_key row_id (filter P rows)"
  have "distinct (map row_id (filter P rows))"
    using assms by (rule distinct_map_filter)
  then have "distinct (map row_id ?xs)"
    by (simp add: distinct_map)
  moreover have "sorted (map row_id ?xs)"
    by (rule sorted_sort_key)
  ultimately have "sorted_wrt (<) (map row_id ?xs)"
    by (simp add: strict_sorted_iff)
  then show ?thesis
    by (simp add: sorted_wrt_map)
qed

lemma older_rows_below:
  assumes "sorted_wrt R xs" and "r \<in> set xs - set (drop k xs)" and "s \<in> set (drop k xs)"
  shows "R r s"
proof -
  have "xs = take k xs @ drop k xs" by simp
  then have "sorted_wrt R (take k xs @ drop k xs)" using assms(1) by simp
  moreover have "r \<in> set (take k xs)"
    using assms(2) by (metis DiffD1 DiffD2 UnE append_take_drop_id set_append)
  ultimately show ?thesis
    using assms(3) unfolding sorted_wrt_append by blast
qed

text \<open>
  Claim C2.  When the store answers and identities are unique (the primary key),
  \<^verbatim>\<open>fetchShortHistory\<close> returns at most \<open>n\<close> turns; they are the exact reversal
  of the newest-first retrieval; they are the projections of \<open>min n k\<close> rows of
  the channel (\<open>k\<close> the number of rows of the channel), in strictly increasing
  identity order, every row of the channel left out being older than every row
  returned; and the result is empty when the channel has no rows.
\<close>

theorem fetchShortHistory_recent:
  assumes ids: "distinct (map row_id (messages w))"
    and ok: "fetchShortHistory env w c n = (Inr ctx, w')"
  shows "length ctx \<le> n
    \<and> ctx = rev (map select_role_content (recent_rows (messages w) c n))
    \<and> sorted_wrt (\<lambda>a b. row_id a > row_id b) (recent_rows (messages w) c n)
    \<and> (let chan = filter (\<lambda>r. row_channel r = c) (messages w);
            sel = rev (recent_rows (messages w) c n)
        in ctx = map select_role_content sel
         \<and> length sel = min n (length chan)
         \<and> set sel \<subseteq> set chan
         \<and> sorted_wrt (\<lambda>a b. row_id a < row_id b) sel
         \<and> (\<forall>r \<in> set chan - set sel. \<forall>s \<in> set sel. row_id r < row_id s)
         \<and> (chan = [] \<longrightarrow> ctx = []))"
proof -
  let ?chan = "filter (\<lambda>r. row_channel r = c) (messages w)"
  let ?xs = "sort_key row_id ?chan"
  let ?sel = "rev (recent_rows (messages w) c n)"
  have ctx: "ctx = rev (map select_role_content (recent_rows (messages w) c n))"
    using ok by (simp add: fetchShortHistory_def split: if_splits)
  have sel: "?sel = drop (length ?chan - n) ?xs"
    by (rule rev_recent_rows)
  have strict: "sorted_wrt (\<lambda>a b. row_id a < row_id b) ?xs"
    using ids by (rule channel_rows_strictly_sorted)
  have len: "length ?sel = min n (length ?chan)"
    unfolding sel by simp
  have sub: "set ?sel \<subseteq> set ?chan"
    unfolding sel using set_drop_subset [of "length ?chan - n" ?xs] by simp
  have asc: "sorted_wrt (\<lambda>a b. row_id a < row_id b) ?sel"
    unfolding sel using strict by (rule sorted_wrt_drop)
  have desc: "sorted_wrt (\<lambda>a b. row_id a > row_id b) (recent_rows (messages w) c n)"
    using asc by (simp add: sorted_wrt_rev)
  have old: "\<forall>r \<in> set ?chan - set ?sel. \<forall>s \<in> set ?sel. row_id r < row_id s"
  proof (intro ballI)
    fix r s
    assume "r \<in> set ?chan - set ?sel" and "s \<in> set ?sel"
    then have "r \<in> set ?xs - set (drop (length ?chan - n) ?xs)"
      and "s \<in> set (drop (length ?chan - n) ?xs)"
      unfolding sel by simp_all
    then show "row_id r < row_id s"
      by (rule older_rows_below [OF strict])
  qed
  have empty: "?chan = [] \<longrightarrow> ctx = []"
    using ctx by (simp add: recent_rows_def)
  have "length ctx \<le> n"
    using ctx len by simp
  then show ?thesis
    using ctx desc len sub asc old empty by (simp add: Let_def rev_map)
qed

text \<open>An instance: two channels, rows stored out of identity order, limit 2.\<close>

theorem fetchShortHistory_recent_witness:
  "distinct (map row_id (messages w_hist))
   \<and> fetchShortHistory env_ok w_hist (lit ''c'') 2 =
       (Inr [\<lparr>role = Assistant, content = lit ''b''\<rparr>, \<lparr>role = User, content = lit ''e''\<rparr>],
        log_event (EvSelectRecent (lit ''c'') 2 True) w_hist)
   \<and> length [\<lparr>role = Assistant, content = lit ''b''\<rparr>, \<lparr>role = User, content = lit ''e''\<rparr>] \<le> (2::nat)
   \<and> [\<lparr>role = Assistant, content = lit ''b''\<rparr>, \<lparr>role = User, content = lit ''e''\<rparr>] =
       rev (map select_role_content (recent_rows (messages w_hist) (lit ''c'') 2))
   \<and> map row_id (rev (recent_rows (messages w_hist) (lit ''c'') 2)) = [3, 5]"
proof -
  have ids: "distinct (map row_id (messages w_hist))"
    by (simp add: w_hist_def)
  have ok: "fetchShortHistory env_ok w_hist (lit ''c'') 2 =
       (Inr [\<lparr>role = Assistant, content = lit ''b''\<rparr>, \<lparr>role = User, content = lit ''e''\<rparr>],
        log_event (EvSelectRecent (lit ''c'') 2 True) w_hist)"
    by (simp add: store_defs example_defs lit_def)
  have "map row_id (rev (recent_rows (messages w_hist) (lit ''c'') 2)) = [3, 5]"
    by (simp add: store_defs example_defs lit_def)
  then show ?thesis
    using ids ok fetchShortHistory_recent [OF ids ok] by blast
qed

subsection \<open>The message handler\<close>

lemma pair_fst_snd: "fst p = a \<Longrightarrow> p = (a, snd p)"
  by auto

text \<open>
  Claim C3.  For a message not written by a bot, the first call of the handler
  is the insert of the message as a user turn, whether the message is addressed
  or not; when the store accepts it, the row stays in the table to the end of
  the handler.  For an unaddressed message that insert is the only call of the
  handler: nothing is generated or sent, no assistant turn is inserted, the
  long-term memory is not touched, and the handler completes.
\<close>

theorem user_turn_persisted_first:
  assumes author: "\<not> msg_author_bot msg"
    and final: "messageCreate env bot_id w msg = (res, w')"
  shows "prefix (trace w @ [user_insert msg (db_up env (length (trace w)))]) (trace w')
    \<and> (\<not> addressed msg \<longrightarrow>
          trace w' = trace w @ [user_insert msg (db_up env (length (trace w)))]
        \<and> user_memory w' = user_memory w)
    \<and> (db_up env (length (trace w)) \<longrightarrow>
          prefix (messages w @ [user_row env w msg]) (messages w')
        \<and> (\<not> addressed msg \<longrightarrow>
              res = Inr () \<and> messages w' = messages w @ [user_row env w msg]))"
proof (cases "db_up env (length (trace w))")
  case False
  then show ?thesis
    using author final
    by (auto simp: messageCreate_def insert_message_down user_insert_def)
next
  case True
  let ?w1 = "w\<lparr>messages := messages w @ [user_row env w msg],
               next_id := Suc (next_id w),
               trace := trace w @ [user_insert msg True]\<rparr>"
  have ins: "insert_message env w (msg_guildId msg) (msg_channelId msg) (msg_author_id msg)
               User (msg_content msg) = (Inr (), ?w1)"
    using True by (simp add: insert_message_up user_row_def user_insert_def)
  have "grows ?w1 w'"
    using messageCreate_after_insert [OF ins author, of bot_id] final by simp
  then have pre: "prefix (trace w @ [user_insert msg True]) (trace w')"
    "prefix (messages w @ [user_row env w msg]) (messages w')"
    by (simp_all add: grows_def)
  have "\<not> addressed msg \<Longrightarrow> (res, w') = (Inr (), ?w1)"
    using author final ins by (simp add: messageCreate_def)
  then show ?thesis
    using True pre by auto
qed

text \<open>An unaddressed and an addressed message on a store that answers.\<close>

theorem user_turn_persisted_first_witness:
  "\<not> msg_author_bot msg_chat \<and> \<not> addressed msg_chat \<and> db_up env_ok (length (trace w_hist))
   \<and> fst (messageCreate env_ok bot0 w_hist msg_chat) = Inr ()
   \<and> trace (snd (messageCreate env_ok bot0 w_hist msg_chat)) = trace w_hist @ [user_insert msg_chat True]
   \<and> user_memory (snd (messageCreate env_ok bot0 w_hist msg_chat)) = user_memory w_hist
   \<and> messages (snd (messageCreate env_ok bot0 w_hist msg_chat)) =
       messages w_hist @ [user_row env_ok w_hist msg_chat]
   \<and> \<not> msg_author_bot msg_hi \<and> addressed msg_hi
   \<and> prefix (trace w_hist @ [user_insert msg_hi True])
        (trace (snd (messageCreate env_ok bot0 w_hist msg_hi)))
   \<and> prefix (messages w_hist @ [user_row env_ok w_hist msg_hi])
        (messages (snd (messageCreate env_ok bot0 w_hist msg_hi)))"
proof -
  have a: "\<not> msg_author_bot msg_chat" and b: "\<not> addressed msg_chat"
    and a': "\<not> msg_author_bot msg_hi" and b': "addressed msg_hi"
    and up: "db_up env_ok (length (trace w_hist))"
    by (simp_all add: example_defs addressed_def startsWith_def lit_def)
  have f: "messageCreate env_ok bot0 w_hist msg_chat =
      (fst (messageCreate env_ok bot0 w_hist msg_chat), snd (messageCreate env_ok bot0 w_hist msg_chat))"
    and f': "messageCreate env_ok bot0 w_hist msg_hi =
      (fst (messageCreate env_ok bot0 w_hist msg_hi), snd (messageCreate env_ok bot0 w_hist msg_hi))"
    by simp_all
  show ?thesis
    using a b a' b' up user_turn_persisted_first [OF a f] user_turn_persisted_first [OF a' f']
    by simp
qed

text \<open>
  Claim C8.  For an addressed message whose text is empty after removing the
  prefix marker and the mention and trimming, the handler completes after the
  insert of the user turn: that insert is its only call (no generation, no
  send, no assistant turn) and the long-term memory is unchanged.
\<close>

theorem empty_text_aborts:
  assumes author: "\<not> msg_author_bot msg"
    and up: "db_up env (length (trace w))"
    and addr: "addressed msg"
    and empty: "userText bot_id (msg_content msg) = []"
    and final: "messageCreate env bot_id w msg = (res, w')"
  shows "res = Inr ()
    \<and> trace w' = trace w @ [user_insert msg True]
    \<and> messages w' = messages w @ [user_row env w msg]
    \<and> user_memory w' = user_memory w"
  using assms
  by (auto simp: messageCreate_def insert_message_up user_row_def user_insert_def)

text \<open>The message \<^verbatim>\<open>"!  <@42> "\<close> sent to bot 42.\<close>

theorem empty_text_aborts_witness:
  "\<not> msg_author_bot msg_bare \<and> db_up env_ok (length (trace w_hist)) \<and> addressed msg_bare
   \<and> userText bot0 (msg_content msg_bare) = []
   \<and> fst (messageCreate env_ok bot0 w_hist msg_bare) = Inr ()
   \<and> trace (snd (messageCreate env_ok bot0 w_hist msg_bare)) = trace w_hist @ [user_insert msg_bare True]
   \<and> messages (snd (messageCreate env_ok bot0 w_hist msg_bare)) =
       messages w_hist @ [user_row env_ok w_hist msg_bare]
   \<and> user_memory (snd (messageCreate env_ok bot0 w_hist msg_bare)) = user_memory w_hist"
proof -
  have a: "\<not> msg_author_bot msg_bare" and up: "db_up env_ok (length (trace w_hist))"
    and b: "addressed msg_bare"
    by (simp_all add: example_defs addressed_def startsWith_def lit_def)
  have e: "userText bot0 (msg_content msg_bare) = []"
    by (simp add: example_defs userText_def mention_def trim_def is_ws_def lit_def)
  have f: "messageCreate env_ok bot0 w_hist msg_bare =
      (fst (messageCreate env_ok bot0 w_hist msg_bare), snd (messageCreate env_ok bot0 w_hist msg_bare))"
    by simp
  show ?thesis
    using a up b e empty_text_aborts [OF a up b e f] by simp
qed

text \<open>
  Claim C4.  For an addressed message with a non-empty text whose user turn was
  inserted and on which \<^verbatim>\<open>generateReply\<close> throws, the handler logs the error and
  then sends the fixed apology to the channel of the message; the user turn
  stays in the table, the insert of the user turn is the only insert of the
  run (no assistant turn), and no memory update is made (no call of the
  summarizer, no upsert, the memory table unchanged).
\<close>

theorem generation_failure_apology:
  assumes author: "\<not> msg_author_bot msg"
    and ins: "insert_message env w (msg_guildId msg) (msg_channelId msg) (msg_author_id msg)
                User (msg_content msg) = (Inr (), w1)"
    and addr: "addressed msg"
    and nonempty: "userText bot_id (msg_content msg) \<noteq> []"
    and gen: "generateReply env w1 (msg_guildId msg) (msg_channelId msg) (msg_author_id msg)
                (userText bot_id (msg_content msg)) = (Inl err, w2)"
    and final: "messageCreate env bot_id w msg = (res, w')"
  shows "trace w' = trace w2 @ [EvLog err,
            EvSend (msg_channelId msg) apology (send_ok env (Suc (length (trace w2))))]
    \<and> res = (if send_ok env (Suc (length (trace w2))) then Inr () else Inl SendError)
    \<and> messages w' = messages w @ [user_row env w msg]
    \<and> user_memory w' = user_memory w
    \<and> filter is_insert (run w w') = [user_insert msg True]
    \<and> filter is_upsert (run w w') = []
    \<and> filter is_summarize (run w w') = []"
proof -
  note w1 = insert_message_Inr [OF ins]
  note rd = generateReply_reads [OF gen]
  have fin: "(res, w') = recover env w2 msg err"
    using author ins addr nonempty gen final
    by (simp add: messageCreate_def answer_def)
  then have w': "w' = w2\<lparr>trace := trace w2 @ [EvLog err,
           EvSend (msg_channelId msg) apology (send_ok env (Suc (length (trace w2))))]\<rparr>"
    and res: "res = (if send_ok env (Suc (length (trace w2))) then Inr () else Inl SendError)"
    by (simp_all add: recover_world)
  have r1: "run w w1 = [user_insert msg True]"
    using w1 by (simp add: run_def user_insert_def)
  have p1: "prefix (trace w) (trace w1)"
    using w1 by simp
  have "run w w2 = run w w1 @ run w1 w2"
    using p1 rd by (auto simp: run_def prefix_def)
  then have "run w w' = [user_insert msg True] @ run w1 w2 @ [EvLog err,
           EvSend (msg_channelId msg) apology (send_ok env (Suc (length (trace w2))))]"
    using r1 p1 rd w' by (auto simp: run_def prefix_def)
  then have "filter is_insert (run w w') = [user_insert msg True]"
    and "filter is_upsert (run w w') = []"
    and "filter is_summarize (run w w') = []"
    using rd by (simp_all add: user_insert_def)
  moreover have "messages w' = messages w @ [user_row env w msg]"
    using w' rd w1 by (simp add: user_row_def)
  moreover have "user_memory w' = user_memory w"
    using w' rd w1 by simp
  ultimately show ?thesis
    using w' res by simp
qed

text \<open>The language model rejects the call.\<close>

theorem generation_failure_apology_witness:
  "\<not> msg_author_bot msg_hi
   \<and> insert_message env_llm_down w_hist (msg_guildId msg_hi) (msg_channelId msg_hi)
        (msg_author_id msg_hi) User (msg_content msg_hi) = (Inr (), (stage1 env_llm_down w_hist msg_hi))
   \<and> addressed msg_hi
   \<and> userText bot0 (msg_content msg_hi) \<noteq> []
   \<and> generateReply env_llm_down (stage1 env_llm_down w_hist msg_hi) (msg_guildId msg_hi) (msg_channelId msg_hi)
        (msg_author_id msg_hi) (userText bot0 (msg_content msg_hi)) = (Inl CapabilityError, (stage2 env_llm_down bot0 w_hist msg_hi))
   \<and> trace (snd (messageCreate env_llm_down bot0 w_hist msg_hi)) =
       trace (stage2 env_llm_down bot0 w_hist msg_hi) @ [EvLog CapabilityError, EvSend (lit ''c'') apology True]
   \<and> fst (messageCreate env_llm_down bot0 w_hist msg_hi) = Inr ()
   \<and> messages (snd (messageCreate env_llm_down bot0 w_hist msg_hi)) =
       messages w_hist @ [user_row env_llm_down w_hist msg_hi]
   \<and> user_memory (snd (messageCreate env_llm_down bot0 w_hist msg_hi)) = user_memory w_hist
   \<and> filter is_insert (run w_hist (snd (messageCreate env_llm_down bot0 w_hist msg_hi))) =
       [user_insert msg_hi True]
   \<and> filter is_upsert (run w_hist (snd (messageCreate env_llm_down bot0 w_hist msg_hi))) = []
   \<and> filter is_summarize (run w_hist (snd (messageCreate env_llm_down bot0 w_hist msg_hi))) = []"
proof -
  have a: "\<not> msg_author_bot msg_hi" and b: "addressed msg_hi"
    by (simp_all add: example_defs addressed_def startsWith_def lit_def)
  have i: "insert_message env_llm_down w_hist (msg_guildId msg_hi) (msg_channelId msg_hi)
        (msg_author_id msg_hi) User (msg_content msg_hi) = (Inr (), (stage1 env_llm_down w_hist msg_hi))"
    unfolding stage1_def by (rule pair_fst_snd) (simp add: insert_message_def example_defs)
  have n: "userText bot0 (msg_content msg_hi) \<noteq> []"
    by (simp add: example_defs userText_def mention_def trim_def is_ws_def lit_def)
  have g: "generateReply env_llm_down (stage1 env_llm_down w_hist msg_hi) (msg_guildId msg_hi) (msg_channelId msg_hi)
        (msg_author_id msg_hi) (userText bot0 (msg_content msg_hi)) = (Inl CapabilityError, (stage2 env_llm_down bot0 w_hist msg_hi))"
    unfolding stage2_def stage1_def
    by (rule pair_fst_snd)
      (simp add: insert_message_def generateReply_def fetchShortHistory_def fetchUserSummary_def chat_content_def
        first_content_def log_event_def env_llm_down_def)
  have f: "messageCreate env_llm_down bot0 w_hist msg_hi =
      (fst (messageCreate env_llm_down bot0 w_hist msg_hi),
       snd (messageCreate env_llm_down bot0 w_hist msg_hi))"
    by simp
  have s: "send_ok env_llm_down (Suc (length (trace (stage2 env_llm_down bot0 w_hist msg_hi))))" and c: "msg_channelId msg_hi = lit ''c''"
    by (simp_all add: example_defs)
  show ?thesis
    using a i b n g s c generation_failure_apology [OF a i b n g f] by simp
qed

lemmas stage_defs = stage1_def stage2_def stage3_def stage4_def stage5_def stage6_def

text \<open>The state after a reply was generated, sent and stored.\<close>

lemma answered_run:
  assumes ins: "insert_message env w (msg_guildId msg) (msg_channelId msg) (msg_author_id msg)
                User (msg_content msg) = (Inr (), w1)"
    and gen: "generateReply env w1 (msg_guildId msg) (msg_channelId msg) (msg_author_id msg)
                text = (Inr reply, w2)"
    and sent: "channel_send env w2 (msg_channelId msg) reply = (Inr (), w3)"
    and kept: "insert_message env w3 (msg_guildId msg) (msg_channelId msg) bot_id
                Assistant reply = (Inr (), w4)"
  shows "messages w4 = messages w @ [user_row env w msg, assistant_row env bot_id w3 msg reply]"
    and "user_memory w4 = user_memory w"
    and "prefix (trace w) (trace w4)"
    and "run w w4 = [user_insert msg True] @ run w1 w2 @
           [EvSend (msg_channelId msg) reply True,
            EvInsertMessage (msg_guildId msg) (msg_channelId msg) bot_id Assistant reply True]"
proof -
  note w1 = insert_message_Inr [OF ins]
  note rd = generateReply_reads [OF gen]
  note w3 = channel_send_Inr [OF sent]
  note w4 = insert_message_Inr [OF kept]
  show "messages w4 = messages w @ [user_row env w msg, assistant_row env bot_id w3 msg reply]"
    using w1 rd w3 w4 by (simp add: user_row_def assistant_row_def)
  show "user_memory w4 = user_memory w"
    using w1 rd w3 w4 by simp
  have p1: "prefix (trace w) (trace w1)"
    using w1 by simp
  then have p2: "prefix (trace w) (trace w2)"
    using rd by (auto simp: prefix_def)
  then show "prefix (trace w) (trace w4)"
    using w3 w4 by (auto simp: prefix_def)
  have "run w w2 = [user_insert msg True] @ run w1 w2"
    using w1 rd by (auto simp: run_def prefix_def user_insert_def)
  then show "run w w4 = [user_insert msg True] @ run w1 w2 @
           [EvSend (msg_channelId msg) reply True,
            EvInsertMessage (msg_guildId msg) (msg_channelId msg) bot_id Assistant reply True]"
    using p2 w3 w4 by (auto simp: run_def prefix_def)
qed

lemma run_extend:
  "prefix (trace w) (trace v) \<Longrightarrow> trace w' = trace v @ es \<Longrightarrow> run w w' = run w v @ es"
  by (auto simp: run_def prefix_def)

text \<open>
  Claim C1 says that a failure of the summarizer is only logged and that no
  apology is sent once the reply has succeeded.  In the run below the reply
  \<^verbatim>\<open>hello\<close> is sent and stored, the summarizer call is rejected, and the
  apology is sent to the channel after the reply.
\<close>

theorem summarizer_failure_counterexample:
  "drop 4 (trace (snd (messageCreate env_sum_down bot0 w_hist msg_hi))) =
     [EvSend (lit ''c'') (lit ''hello'') True,
      EvInsertMessage None (lit ''c'') bot0 Assistant (lit ''hello'') True,
      EvSelectSummary (lit ''7'') True,
      EvChat (summary_messages [] (msg_content msg_hi)) 2 LlmFail,
      EvLog CapabilityError,
      EvSend (lit ''c'') apology True]"
  by (simp add: handler_defs store_defs call_defs example_defs env_sum_down_def)

text \<open>
  Claim C1, amended.  The memory update runs inside the same \<^verbatim>\<open>try\<close> block as
  the reply.  When the reply was generated, sent and stored and the summarizer
  call then fails, the handler logs the error and sends the fixed apology to
  the channel, after the reply; the stored summary is unchanged, no upsert is
  made, the user turn and the assistant turn stay in the table, and the handler
  completes when the platform accepts the apology.
\<close>

theorem summarizer_failure_caught:
  assumes author: "\<not> msg_author_bot msg"
    and ins: "insert_message env w (msg_guildId msg) (msg_channelId msg) (msg_author_id msg)
                User (msg_content msg) = (Inr (), w1)"
    and addr: "addressed msg"
    and nonempty: "userText bot_id (msg_content msg) \<noteq> []"
    and gen: "generateReply env w1 (msg_guildId msg) (msg_channelId msg) (msg_author_id msg)
                (userText bot_id (msg_content msg)) = (Inr reply, w2)"
    and sent: "channel_send env w2 (msg_channelId msg) reply = (Inr (), w3)"
    and kept: "insert_message env w3 (msg_guildId msg) (msg_channelId msg) bot_id
                Assistant reply = (Inr (), w4)"
    and cur: "fetchUserSummary env w4 (msg_author_id msg) = (Inr current, w5)"
    and fail: "chat_content env w5 (summary_messages current (msg_content msg)) 2 = (Inl err, w6)"
    and final: "messageCreate env bot_id w msg = (res, w')"
  shows "trace w' = trace w6 @ [EvLog err,
            EvSend (msg_channelId msg) apology (send_ok env (Suc (length (trace w6))))]
    \<and> res = (if send_ok env (Suc (length (trace w6))) then Inr () else Inl SendError)
    \<and> user_memory w' = user_memory w
    \<and> messages w' = messages w @ [user_row env w msg, assistant_row env bot_id w3 msg reply]
    \<and> filter is_send (run w w') =
        [EvSend (msg_channelId msg) reply True,
         EvSend (msg_channelId msg) apology (send_ok env (Suc (length (trace w6))))]
    \<and> filter is_upsert (run w w') = []"
proof -
  note ans = answered_run [OF ins gen sent kept]
  note rd = generateReply_reads [OF gen]
  note w5 = fetchUserSummary_Inr [OF cur]
  note w6 = chat_content_world [OF fail]
  have "upsertUserSummary env w4 (msg_author_id msg) (msg_content msg) = (Inl err, w6)"
    using cur fail by (simp add: upsertUserSummary_def)
  then have "(res, w') = recover env w6 msg err"
    using author ins addr nonempty gen sent kept final
    by (simp add: messageCreate_def answer_def)
  then have w': "w' = w6\<lparr>trace := trace w6 @ [EvLog err,
           EvSend (msg_channelId msg) apology (send_ok env (Suc (length (trace w6))))]\<rparr>"
    and res: "res = (if send_ok env (Suc (length (trace w6))) then Inr () else Inl SendError)"
    by (simp_all add: recover_world)
  have "trace w' = trace w4 @ [EvSelectSummary (msg_author_id msg) True,
      EvChat (summary_messages current (msg_content msg)) 2
        (llm_reply env (length (trace w5)) (summary_messages current (msg_content msg))),
      EvLog err, EvSend (msg_channelId msg) apology (send_ok env (Suc (length (trace w6))))]"
    using w' w6 w5 by simp
  from run_extend [OF ans(3) this]
  have "filter is_send (run w w') =
        [EvSend (msg_channelId msg) reply True,
         EvSend (msg_channelId msg) apology (send_ok env (Suc (length (trace w6))))]"
    and "filter is_upsert (run w w') = []"
    using ans(4) rd by (simp_all add: user_insert_def)
  moreover have "user_memory w' = user_memory w"
    using w' w6 w5 ans(2) by simp
  moreover have "messages w' = messages w @ [user_row env w msg, assistant_row env bot_id w3 msg reply]"
    using w' w6 w5 ans(1) by simp
  ultimately show ?thesis
    using w' res by simp
qed

text \<open>The summarizer call is rejected after the reply \<^verbatim>\<open>hello\<close> went out.\<close>

theorem summarizer_failure_caught_witness:
  "\<not> msg_author_bot msg_hi
   \<and> insert_message env_sum_down w_hist (msg_guildId msg_hi) (msg_channelId msg_hi)
        (msg_author_id msg_hi) User (msg_content msg_hi) = (Inr (), stage1 env_sum_down w_hist msg_hi)
   \<and> addressed msg_hi
   \<and> userText bot0 (msg_content msg_hi) \<noteq> []
   \<and> generateReply env_sum_down (stage1 env_sum_down w_hist msg_hi) (msg_guildId msg_hi)
        (msg_channelId msg_hi) (msg_author_id msg_hi) (userText bot0 (msg_content msg_hi)) =
        (Inr (lit ''hello''), stage2 env_sum_down bot0 w_hist msg_hi)
   \<and> channel_send env_sum_down (stage2 env_sum_down bot0 w_hist msg_hi) (msg_channelId msg_hi)
        (lit ''hello'') = (Inr (), stage3 env_sum_down bot0 w_hist msg_hi (lit ''hello''))
   \<and> insert_message env_sum_down (stage3 env_sum_down bot0 w_hist msg_hi (lit ''hello''))
        (msg_guildId msg_hi) (msg_channelId msg_hi) bot0 Assistant (lit ''hello'') =
        (Inr (), stage4 env_sum_down bot0 w_hist msg_hi (lit ''hello''))
   \<and> fetchUserSummary env_sum_down (stage4 env_sum_down bot0 w_hist msg_hi (lit ''hello''))
        (msg_author_id msg_hi) = (Inr [], stage5 env_sum_down bot0 w_hist msg_hi (lit ''hello''))
   \<and> chat_content env_sum_down (stage5 env_sum_down bot0 w_hist msg_hi (lit ''hello''))
        (summary_messages [] (msg_content msg_hi)) 2 =
        (Inl CapabilityError, stage6 env_sum_down bot0 w_hist msg_hi (lit ''hello'') [])
   \<and> trace (snd (messageCreate env_sum_down bot0 w_hist msg_hi)) =
        trace (stage6 env_sum_down bot0 w_hist msg_hi (lit ''hello'') []) @
        [EvLog CapabilityError, EvSend (msg_channelId msg_hi) apology True]
   \<and> fst (messageCreate env_sum_down bot0 w_hist msg_hi) = Inr ()
   \<and> user_memory (snd (messageCreate env_sum_down bot0 w_hist msg_hi)) = user_memory w_hist
   \<and> messages (snd (messageCreate env_sum_down bot0 w_hist msg_hi)) =
        messages w_hist @ [user_row env_sum_down w_hist msg_hi,
          assistant_row env_sum_down bot0 (stage3 env_sum_down bot0 w_hist msg_hi (lit ''hello''))
            msg_hi (lit ''hello'')]
   \<and> filter is_send (run w_hist (snd (messageCreate env_sum_down bot0 w_hist msg_hi))) =
        [EvSend (msg_channelId msg_hi) (lit ''hello'') True,
         EvSend (msg_channelId msg_hi) apology True]
   \<and> filter is_upsert (run w_hist (snd (messageCreate env_sum_down bot0 w_hist msg_hi))) = []"
proof -
  have a: "\<not> msg_author_bot msg_hi" and b: "addressed msg_hi"
    by (simp_all add: example_defs addressed_def startsWith_def lit_def)
  have n: "userText bot0 (msg_content msg_hi) \<noteq> []"
    by (simp add: example_defs userText_def mention_def trim_def is_ws_def lit_def)
  have i: "insert_message env_sum_down w_hist (msg_guildId msg_hi) (msg_channelId msg_hi)
        (msg_author_id msg_hi) User (msg_content msg_hi) = (Inr (), stage1 env_sum_down w_hist msg_hi)"
    unfolding stage1_def
    by (rule pair_fst_snd) (simp add: store_defs example_defs env_sum_down_def)
  have g: "generateReply env_sum_down (stage1 env_sum_down w_hist msg_hi) (msg_guildId msg_hi)
        (msg_channelId msg_hi) (msg_author_id msg_hi) (userText bot0 (msg_content msg_hi)) =
        (Inr (lit ''hello''), stage2 env_sum_down bot0 w_hist msg_hi)"
    unfolding stage2_def
    by (rule pair_fst_snd)
      (simp add: stage_defs handler_defs store_defs call_defs example_defs env_sum_down_def)
  have s: "channel_send env_sum_down (stage2 env_sum_down bot0 w_hist msg_hi) (msg_channelId msg_hi)
        (lit ''hello'') = (Inr (), stage3 env_sum_down bot0 w_hist msg_hi (lit ''hello''))"
    unfolding stage3_def
    by (rule pair_fst_snd) (simp add: call_defs env_sum_down_def)
  have k: "insert_message env_sum_down (stage3 env_sum_down bot0 w_hist msg_hi (lit ''hello''))
        (msg_guildId msg_hi) (msg_channelId msg_hi) bot0 Assistant (lit ''hello'') =
        (Inr (), stage4 env_sum_down bot0 w_hist msg_hi (lit ''hello''))"
    unfolding stage4_def
    by (rule pair_fst_snd) (simp add: insert_message_def env_sum_down_def)
  have c: "fetchUserSummary env_sum_down (stage4 env_sum_down bot0 w_hist msg_hi (lit ''hello''))
        (msg_author_id msg_hi) = (Inr [], stage5 env_sum_down bot0 w_hist msg_hi (lit ''hello''))"
    unfolding stage5_def
    by (rule pair_fst_snd)
      (simp add: stage_defs handler_defs store_defs call_defs example_defs env_sum_down_def)
  have x: "chat_content env_sum_down (stage5 env_sum_down bot0 w_hist msg_hi (lit ''hello''))
        (summary_messages [] (msg_content msg_hi)) 2 =
        (Inl CapabilityError, stage6 env_sum_down bot0 w_hist msg_hi (lit ''hello'') [])"
    unfolding stage6_def
    by (rule pair_fst_snd)
      (simp add: stage_defs handler_defs store_defs call_defs example_defs env_sum_down_def)
  have f: "messageCreate env_sum_down bot0 w_hist msg_hi =
      (fst (messageCreate env_sum_down bot0 w_hist msg_hi),
       snd (messageCreate env_sum_down bot0 w_hist msg_hi))"
    by simp
  have ok: "send_ok env_sum_down
      (Suc (length (trace (stage6 env_sum_down bot0 w_hist msg_hi (lit ''hello'') []))))"
    by (simp add: env_sum_down_def)
  show ?thesis
    using a i b n g s k c x ok summarizer_failure_caught [OF a i b n g s k c x f] by simp
qed

lemma summary_messages_inject:
  "summary_messages current a = summary_messages current b \<longleftrightarrow> a = b"
  by (simp add: summary_messages_def summary_prompt_def)

lemma upsertUserSummary_calls:
  assumes cur: "fetchUserSummary env w (msg_author_id msg) = (Inr current, w5)"
    and ups: "upsertUserSummary env w (msg_author_id msg) raw = (x, v)"
    and fin: "(res, w') = (case (x, v) of (Inl e, v) \<Rightarrow> recover env v msg e | (Inr _, v) \<Rightarrow> (Inr (), v))"
  shows "\<exists>es. trace w' = trace w @ [EvSelectSummary (msg_author_id msg) True,
            EvChat (summary_messages current raw) 2
              (llm_reply env (length (trace w5)) (summary_messages current raw))] @ es
          \<and> filter is_summarize es = []"
proof -
  note w5 = fetchUserSummary_Inr [OF cur]
  show ?thesis
    using ups fin w5 cur
    by (auto simp: upsertUserSummary_def chat_content_def upsert_summary_def log_event_def
        recover_world Let_def split: sum.splits if_splits)
qed

text \<open>
  Claim C7.  When the reply to an addressed message was generated, sent and
  stored, the handler continues with \<^verbatim>\<open>upsertUserSummary\<close> applied to the author
  and to the raw content of the message.  When the store returns the current
  summary, the only call of the summarizer in the run carries the prompt built
  from that summary and the raw content; the prompt determines the text it was
  built from, so it is the prompt of the cleaned text or of the reply only when
  these equal the raw content.
\<close>

theorem memory_update_uses_raw_content:
  assumes author: "\<not> msg_author_bot msg"
    and ins: "insert_message env w (msg_guildId msg) (msg_channelId msg) (msg_author_id msg)
                User (msg_content msg) = (Inr (), w1)"
    and addr: "addressed msg"
    and nonempty: "userText bot_id (msg_content msg) \<noteq> []"
    and gen: "generateReply env w1 (msg_guildId msg) (msg_channelId msg) (msg_author_id msg)
                (userText bot_id (msg_content msg)) = (Inr reply, w2)"
    and sent: "channel_send env w2 (msg_channelId msg) reply = (Inr (), w3)"
    and kept: "insert_message env w3 (msg_guildId msg) (msg_channelId msg) bot_id
                Assistant reply = (Inr (), w4)"
    and final: "messageCreate env bot_id w msg = (res, w')"
  shows "(res, w') =
      (case upsertUserSummary env w4 (msg_author_id msg) (msg_content msg) of
         (Inl e, w5) \<Rightarrow> recover env w5 msg e
       | (Inr _, w5) \<Rightarrow> (Inr (), w5))
    \<and> (\<forall>current w5. fetchUserSummary env w4 (msg_author_id msg) = (Inr current, w5) \<longrightarrow>
          filter is_summarize (run w w') =
            [EvChat (summary_messages current (msg_content msg)) 2
               (llm_reply env (length (trace w5)) (summary_messages current (msg_content msg)))]
        \<and> (summary_messages current (userText bot_id (msg_content msg)) =
             summary_messages current (msg_content msg)
             \<longrightarrow> userText bot_id (msg_content msg) = msg_content msg)
        \<and> (summary_messages current reply = summary_messages current (msg_content msg)
             \<longrightarrow> reply = msg_content msg))"
proof -
  note ans = answered_run [OF ins gen sent kept]
  note rd = generateReply_reads [OF gen]
  obtain x v where ups: "upsertUserSummary env w4 (msg_author_id msg) (msg_content msg) = (x, v)"
    by (cases "upsertUserSummary env w4 (msg_author_id msg) (msg_content msg)")
  have fin: "(res, w') = (case (x, v) of (Inl e, v) \<Rightarrow> recover env v msg e | (Inr _, v) \<Rightarrow> (Inr (), v))"
    using author ins addr nonempty gen sent kept final ups
    by (simp add: messageCreate_def answer_def split: sum.splits)
  have one: "filter is_summarize (run w w') =
            [EvChat (summary_messages current (msg_content msg)) 2
               (llm_reply env (length (trace w5)) (summary_messages current (msg_content msg)))]"
    if cur: "fetchUserSummary env w4 (msg_author_id msg) = (Inr current, w5)" for current w5
  proof -
    from upsertUserSummary_calls [OF cur ups fin]
    obtain es where tr: "trace w' = trace w4 @ [EvSelectSummary (msg_author_id msg) True,
            EvChat (summary_messages current (msg_content msg)) 2
              (llm_reply env (length (trace w5)) (summary_messages current (msg_content msg)))] @ es"
      and es: "filter is_summarize es = []"
      by blast
    from run_extend [OF ans(3) tr] show ?thesis
      using ans(4) rd es by (simp add: user_insert_def)
  qed
  show ?thesis
    using fin ups one by (simp add: summary_messages_inject)
qed

text \<open>
  The raw content \<^verbatim>\<open>! hi <@42>\<close>, the cleaned text \<^verbatim>\<open>hi\<close> and the reply
  \<^verbatim>\<open>hello\<close> differ.
\<close>

theorem memory_update_uses_raw_content_witness:
  "\<not> msg_author_bot msg_hi
   \<and> insert_message env_ok w_hist (msg_guildId msg_hi) (msg_channelId msg_hi)
        (msg_author_id msg_hi) User (msg_content msg_hi) = (Inr (), stage1 env_ok w_hist msg_hi)
   \<and> addressed msg_hi
   \<and> userText bot0 (msg_content msg_hi) = lit ''hi''
   \<and> generateReply env_ok (stage1 env_ok w_hist msg_hi) (msg_guildId msg_hi)
        (msg_channelId msg_hi) (msg_author_id msg_hi) (userText bot0 (msg_content msg_hi)) =
        (Inr (lit ''hello''), stage2 env_ok bot0 w_hist msg_hi)
   \<and> channel_send env_ok (stage2 env_ok bot0 w_hist msg_hi) (msg_channelId msg_hi)
        (lit ''hello'') = (Inr (), stage3 env_ok bot0 w_hist msg_hi (lit ''hello''))
   \<and> insert_message env_ok (stage3 env_ok bot0 w_hist msg_hi (lit ''hello''))
        (msg_guildId msg_hi) (msg_channelId msg_hi) bot0 Assistant (lit ''hello'') =
        (Inr (), stage4 env_ok bot0 w_hist msg_hi (lit ''hello''))
   \<and> fetchUserSummary env_ok (stage4 env_ok bot0 w_hist msg_hi (lit ''hello''))
        (msg_author_id msg_hi) = (Inr [], stage5 env_ok bot0 w_hist msg_hi (lit ''hello''))
   \<and> filter is_summarize (run w_hist (snd (messageCreate env_ok bot0 w_hist msg_hi))) =
        [EvChat (summary_messages [] (lit ''! hi <@42>'')) 2 (LlmResp [Some (lit '' hello '')])]"
proof -
  have a: "\<not> msg_author_bot msg_hi" and b: "addressed msg_hi"
    by (simp_all add: example_defs addressed_def startsWith_def lit_def)
  have t: "userText bot0 (msg_content msg_hi) = lit ''hi''"
    by (simp add: example_defs userText_def mention_def trim_def is_ws_def lit_def)
  then have n: "userText bot0 (msg_content msg_hi) \<noteq> []"
    by (simp add: lit_def)
  have i: "insert_message env_ok w_hist (msg_guildId msg_hi) (msg_channelId msg_hi)
        (msg_author_id msg_hi) User (msg_content msg_hi) = (Inr (), stage1 env_ok w_hist msg_hi)"
    unfolding stage1_def
    by (rule pair_fst_snd) (simp add: store_defs example_defs)
  have g: "generateReply env_ok (stage1 env_ok w_hist msg_hi) (msg_guildId msg_hi)
        (msg_channelId msg_hi) (msg_author_id msg_hi) (userText bot0 (msg_content msg_hi)) =
        (Inr (lit ''hello''), stage2 env_ok bot0 w_hist msg_hi)"
    unfolding stage2_def
    by (rule pair_fst_snd)
      (simp add: stage_defs handler_defs store_defs call_defs example_defs)
  have s: "channel_send env_ok (stage2 env_ok bot0 w_hist msg_hi) (msg_channelId msg_hi)
        (lit ''hello'') = (Inr (), stage3 env_ok bot0 w_hist msg_hi (lit ''hello''))"
    unfolding stage3_def
    by (rule pair_fst_snd) (simp add: call_defs env_ok_def)
  have k: "insert_message env_ok (stage3 env_ok bot0 w_hist msg_hi (lit ''hello''))
        (msg_guildId msg_hi) (msg_channelId msg_hi) bot0 Assistant (lit ''hello'') =
        (Inr (), stage4 env_ok bot0 w_hist msg_hi (lit ''hello''))"
    unfolding stage4_def
    by (rule pair_fst_snd) (simp add: insert_message_def env_ok_def)
  have c: "fetchUserSummary env_ok (stage4 env_ok bot0 w_hist msg_hi (lit ''hello''))
        (msg_author_id msg_hi) = (Inr [], stage5 env_ok bot0 w_hist msg_hi (lit ''hello''))"
    unfolding stage5_def
    by (rule pair_fst_snd)
      (simp add: stage_defs handler_defs store_defs call_defs example_defs)
  have f: "messageCreate env_ok bot0 w_hist msg_hi =
      (fst (messageCreate env_ok bot0 w_hist msg_hi),
       snd (messageCreate env_ok bot0 w_hist msg_hi))"
    by simp
  have r: "llm_reply env_ok (length (trace (stage5 env_ok bot0 w_hist msg_hi (lit ''hello''))))
      (summary_messages [] (msg_content msg_hi)) = LlmResp [Some (lit '' hello '')]"
    and m: "msg_content msg_hi = lit ''! hi <@42>''"
    by (simp_all add: example_defs)
  from memory_update_uses_raw_content [OF a i b n g s k f] c
  have "filter is_summarize (run w_hist (snd (messageCreate env_ok bot0 w_hist msg_hi))) =
        [EvChat (summary_messages [] (msg_content msg_hi)) 2
          (llm_reply env_ok (length (trace (stage5 env_ok bot0 w_hist msg_hi (lit ''hello''))))
             (summary_messages [] (msg_content msg_hi)))]"
    by blast
  then have "filter is_summarize (run w_hist (snd (messageCreate env_ok bot0 w_hist msg_hi))) =
        [EvChat (summary_messages [] (lit ''! hi <@42>'')) 2 (LlmResp [Some (lit '' hello '')])]"
    unfolding r unfolding m .
  then show ?thesis
    using a i b t g s k c by blast
qed

subsection \<open>Trimming\<close>

lemma trim_decompose:
  "s = takeWhile is_ws s @ trim s @ rev (takeWhile is_ws (rev (dropWhile is_ws s)))"
proof -
  let ?d = "dropWhile is_ws s"
  have "rev ?d = takeWhile is_ws (rev ?d) @ dropWhile is_ws (rev ?d)"
    by simp
  then have "?d = rev (dropWhile is_ws (rev ?d)) @ rev (takeWhile is_ws (rev ?d))"
    by (metis rev_append rev_rev_ident)
  then have "?d = trim s @ rev (takeWhile is_ws (rev ?d))"
    by (simp add: trim_def)
  moreover have "s = takeWhile is_ws s @ ?d"
    by simp
  ultimately show ?thesis
    by metis
qed

lemma trim_ends:
  assumes "trim s \<noteq> []"
  shows "\<not> is_ws (hd (trim s))" and "\<not> is_ws (last (trim s))"
proof -
  let ?d = "dropWhile is_ws s"
  let ?e = "dropWhile is_ws (rev ?d)"
  have e: "?e \<noteq> []"
    using assms by (simp add: trim_def)
  then have "\<not> is_ws (hd ?e)"
    by (rule hd_dropWhile)
  then show "\<not> is_ws (last (trim s))"
    using e by (simp add: trim_def last_rev)
  have d: "?d \<noteq> []"
    using e by (metis dropWhile.simps(1) rev.simps(1))
  then have h: "\<not> is_ws (hd ?d)"
    by (rule hd_dropWhile)
  have "?d = trim s @ rev (takeWhile is_ws (rev ?d))"
    using trim_decompose [of s] by (metis same_append_eq takeWhile_dropWhile_id)
  then have "hd ?d = hd (trim s)"
    using assms by (metis hd_append2)
  then show "\<not> is_ws (hd (trim s))"
    using h by simp
qed

lemma trim_empty_iff: "trim s = [] \<longleftrightarrow> (\<forall>c \<in> set s. is_ws c)"
proof
  assume "trim s = []"
  then have "s = takeWhile is_ws s @ rev (takeWhile is_ws (rev (dropWhile is_ws s)))"
    using trim_decompose [of s] by simp
  then have "set s \<subseteq> set (takeWhile is_ws s) \<union> set (takeWhile is_ws (rev (dropWhile is_ws s)))"
    by (metis set_append set_rev subset_refl)
  then show "\<forall>c \<in> set s. is_ws c"
    by (auto dest: set_takeWhileD)
next
  assume "\<forall>c \<in> set s. is_ws c"
  then show "trim s = []"
    by (auto simp: trim_def dest: set_dropWhileD)
qed

subsection \<open>Long-term memory\<close>

lemma upsert_summary_Inr:
  "upsert_summary env w u s = (Inr x, w') \<Longrightarrow>
   db_up env (length (trace w)) \<and>
   w' = w\<lparr>user_memory := (user_memory w)(u \<mapsto> \<lparr>summary = s, updated_at = clock env (length (trace w))\<rparr>),
          trace := trace w @ [EvUpsertSummary u s True]\<rparr>"
  by (auto simp: upsert_summary_def log_event_def Let_def split: if_splits)

lemma first_content_Inr:
  "first_content r = Inr out \<Longrightarrow> \<exists>rest. r = LlmResp (Some out # rest)"
  by (auto simp: first_content_def split: llm_result.splits list.splits option.splits)

text \<open>
  Claim C5.  A call of \<^verbatim>\<open>upsertUserSummary\<close> that returns reads the current
  summary, calls the summarizer once and writes once.  The prompt shows an empty
  current summary as \<^verbatim>\<open>(none)\<close>.  The value stored and returned is the content
  of the first completion with the white space at both ends removed; it replaces
  the row of the user whatever the row held before, and the row's time stamp is
  the clock of the writing call, also when the text equals the stored one.
\<close>

theorem upsertUserSummary_replaces:
  assumes ok: "upsertUserSummary env w user_id txt = (Inr updated, w')"
  shows "(let current = (case user_memory w user_id of None \<Rightarrow> [] | Some m \<Rightarrow> summary m);
             shown = (if current = [] then lit ''(none)'' else current);
             prompt = lit ''Current summary: '' @ dq @ shown @ dq @ nl @
                      lit ''New message from user: '' @ dq @ txt @ dq @ nl @
                      lit ''Return: one-sentence updated summary ONLY.'';
             msgs = [\<lparr>role = System, content = summary_system\<rparr>, \<lparr>role = User, content = prompt\<rparr>]
         in \<exists>out rest.
              run w w' = [EvSelectSummary user_id True,
                          EvChat msgs 2 (LlmResp (Some out # rest)),
                          EvUpsertSummary user_id updated True]
            \<and> llm_reply env (Suc (length (trace w))) msgs = LlmResp (Some out # rest)
            \<and> updated = trim out
            \<and> (\<exists>a b. out = a @ updated @ b \<and> (\<forall>c \<in> set a. is_ws c) \<and> (\<forall>c \<in> set b. is_ws c))
            \<and> (updated \<noteq> [] \<longrightarrow> \<not> is_ws (hd updated) \<and> \<not> is_ws (last updated))
            \<and> user_memory w' =
                (user_memory w)(user_id \<mapsto>
                   \<lparr>summary = updated, updated_at = clock env (Suc (Suc (length (trace w))))\<rparr>)
            \<and> messages w' = messages w)"
proof -
  let ?current = "case user_memory w user_id of None \<Rightarrow> [] | Some m \<Rightarrow> summary m"
  let ?msgs = "summary_messages ?current txt"
  obtain w1 where cur: "fetchUserSummary env w user_id = (Inr ?current, w1)"
    using ok
    by (auto simp: upsertUserSummary_def fetchUserSummary_def split: if_splits)
  note w1 = fetchUserSummary_Inr [OF cur]
  obtain out w2 where chat: "chat_content env w1 ?msgs 2 = (Inr out, w2)"
    using ok cur by (auto simp: upsertUserSummary_def split: prod.splits sum.splits)
  note w2 = chat_content_world [OF chat]
  have ups: "upsert_summary env w2 user_id (trim out) = (Inr (), w')" and upd: "updated = trim out"
    using ok cur chat by (auto simp: upsertUserSummary_def Let_def split: prod.splits sum.splits)
  note w' = upsert_summary_Inr [OF ups]
  from w2 have "first_content (llm_reply env (length (trace w1)) ?msgs) = Inr out"
    by simp
  then obtain rest where r: "llm_reply env (length (trace w1)) ?msgs = LlmResp (Some out # rest)"
    by (blast dest: first_content_Inr)
  have len: "length (trace w1) = Suc (length (trace w))"
    using w1 by simp
  have tr: "run w w' = [EvSelectSummary user_id True, EvChat ?msgs 2 (LlmResp (Some out # rest)),
                         EvUpsertSummary user_id updated True]"
    using w1 w2 w' r upd by (simp add: run_def)
  have mem: "user_memory w' = (user_memory w)(user_id \<mapsto>
                   \<lparr>summary = updated, updated_at = clock env (Suc (Suc (length (trace w))))\<rparr>)"
    using w1 w2 w' upd by simp
  have msg: "messages w' = messages w"
    using w1 w2 w' by simp
  have parts: "\<exists>a b. out = a @ updated @ b \<and> (\<forall>c \<in> set a. is_ws c) \<and> (\<forall>c \<in> set b. is_ws c)"
  proof (intro exI conjI)
    show "out = takeWhile is_ws out @ updated @ rev (takeWhile is_ws (rev (dropWhile is_ws out)))"
      unfolding upd by (rule trim_decompose)
    show "\<forall>c \<in> set (takeWhile is_ws out). is_ws c"
      by (auto dest: set_takeWhileD)
    show "\<forall>c \<in> set (rev (takeWhile is_ws (rev (dropWhile is_ws out)))). is_ws c"
      by (auto dest: set_takeWhileD)
  qed
  have ends: "updated \<noteq> [] \<longrightarrow> \<not> is_ws (hd updated) \<and> \<not> is_ws (last updated)"
    unfolding upd using trim_ends [of out] by blast
  have unfold: "?msgs = [\<lparr>role = System, content = summary_system\<rparr>,
      \<lparr>role = User, content = lit ''Current summary: '' @ dq @
          (if ?current = [] then lit ''(none)'' else ?current) @ dq @ nl @
          lit ''New message from user: '' @ dq @ txt @ dq @ nl @
          lit ''Return: one-sentence updated summary ONLY.''\<rparr>]"
    by (simp add: summary_messages_def summary_prompt_def or_else_def none_marker_def)
  show ?thesis
    unfolding Let_def unfold [symmetric]
    using tr r upd parts ends mem msg len by auto
qed

text \<open>
  User 8 has the summary \<^verbatim>\<open>likes Rust\<close>, written at time 20, and the summarizer
  returns it again: the text stays and the time stamp moves to 102.  User 7 has
  no summary: the prompt shows \<^verbatim>\<open>(none)\<close>.
\<close>

theorem upsertUserSummary_replaces_witness:
  "upsertUserSummary env_same w_hist (lit ''8'') (lit ''ok'') =
     (Inr (lit ''likes Rust''), snd (upsertUserSummary env_same w_hist (lit ''8'') (lit ''ok'')))
   \<and> user_memory w_hist (lit ''8'') = Some \<lparr>summary = lit ''likes Rust'', updated_at = 20\<rparr>
   \<and> user_memory (snd (upsertUserSummary env_same w_hist (lit ''8'') (lit ''ok''))) =
       (user_memory w_hist)(lit ''8'' \<mapsto> \<lparr>summary = lit ''likes Rust'', updated_at = 102\<rparr>)
   \<and> upsertUserSummary env_same w_hist (lit ''7'') (lit ''ok'') =
     (Inr (lit ''likes Rust''), snd (upsertUserSummary env_same w_hist (lit ''7'') (lit ''ok'')))
   \<and> run w_hist (snd (upsertUserSummary env_same w_hist (lit ''7'') (lit ''ok''))) =
       [EvSelectSummary (lit ''7'') True,
        EvChat [\<lparr>role = System, content = summary_system\<rparr>,
                \<lparr>role = User, content =
                   lit ''Current summary: '' @ dq @ lit ''(none)'' @ dq @ nl @
                   lit ''New message from user: '' @ dq @ lit ''ok'' @ dq @ nl @
                   lit ''Return: one-sentence updated summary ONLY.''\<rparr>] 2
          (LlmResp [Some (lit '' likes Rust'' @ nl)]),
        EvUpsertSummary (lit ''7'') (lit ''likes Rust'') True]"
proof -
  have h8: "upsertUserSummary env_same w_hist (lit ''8'') (lit ''ok'') =
     (Inr (lit ''likes Rust''), snd (upsertUserSummary env_same w_hist (lit ''8'') (lit ''ok'')))"
    by (rule pair_fst_snd)
      (simp add: handler_defs store_defs call_defs env_same_def w_hist_def nl_def)
  have h7: "upsertUserSummary env_same w_hist (lit ''7'') (lit ''ok'') =
     (Inr (lit ''likes Rust''), snd (upsertUserSummary env_same w_hist (lit ''7'') (lit ''ok'')))"
    by (rule pair_fst_snd)
      (simp add: handler_defs store_defs call_defs env_same_def w_hist_def nl_def)
  have old: "user_memory w_hist (lit ''8'') = Some \<lparr>summary = lit ''likes Rust'', updated_at = 20\<rparr>"
    and no7: "user_memory w_hist (lit ''7'') = None"
    by (simp_all add: w_hist_def lit_def)
  have now: "clock env_same (Suc (Suc (length (trace w_hist)))) = 102"
    by (simp add: env_same_def w_hist_def)
  have llm: "\<And>n ms. llm_reply env_same n ms = LlmResp [Some (lit '' likes Rust'' @ nl)]"
    by (simp add: env_same_def)
  from upsertUserSummary_replaces [OF h8]
  have m8: "user_memory (snd (upsertUserSummary env_same w_hist (lit ''8'') (lit ''ok''))) =
       (user_memory w_hist)(lit ''8'' \<mapsto> \<lparr>summary = lit ''likes Rust'', updated_at = 102\<rparr>)"
    unfolding Let_def now by blast
  from upsertUserSummary_replaces [OF h7]
  have r7: "run w_hist (snd (upsertUserSummary env_same w_hist (lit ''7'') (lit ''ok''))) =
       [EvSelectSummary (lit ''7'') True,
        EvChat [\<lparr>role = System, content = summary_system\<rparr>,
                \<lparr>role = User, content =
                   lit ''Current summary: '' @ dq @ lit ''(none)'' @ dq @ nl @
                   lit ''New message from user: '' @ dq @ lit ''ok'' @ dq @ nl @
                   lit ''Return: one-sentence updated summary ONLY.''\<rparr>] 2
          (LlmResp [Some (lit '' likes Rust'' @ nl)]),
        EvUpsertSummary (lit ''7'') (lit ''likes Rust'') True]"
    unfolding Let_def no7 llm by auto
  show ?thesis
    using h8 old m8 h7 r7 by blast
qed

subsection \<open>Reply generation\<close>

lemma read_history_example:
  "db_up env 0 \<Longrightarrow> fetchShortHistory env w_hist (lit ''c'') 10 = (Inr ctx_c, w_read1)"
  by (simp add: store_defs w_hist_def ctx_c_def w_read1_def lit_def)

lemma read_summary_example:
  "db_up env 1 \<Longrightarrow> fetchUserSummary env w_read1 (lit ''7'') = (Inr [], w_read2)"
  by (simp add: store_defs w_hist_def w_read1_def w_read2_def lit_def)

lemma fetchShortHistory_Inr:
  "fetchShortHistory env w c n = (Inr short, w') \<Longrightarrow>
   db_up env (length (trace w)) \<and>
   short = rev (map select_role_content (recent_rows (messages w) c n)) \<and>
   w' = w\<lparr>trace := trace w @ [EvSelectRecent c n True]\<rparr>"
  by (auto simp: fetchShortHistory_def log_event_def split: if_splits)

lemma chat_message_eta: "map (\<lambda>m. \<lparr>role = role m, content = content m\<rparr>) short = short"
  by (induction short) simp_all

text \<open>
  Claim C6.  When the store returns the short history and the summary,
  \<^verbatim>\<open>generateReply\<close> makes exactly one call of the language model, and the
  messages of that call are, in this order: the persona as a system message; a
  system message with the user's long-term memory, \<^verbatim>\<open>(none)\<close> standing for an
  empty summary; the turns of the short history, oldest first; the new text as
  a user message.
\<close>

theorem generateReply_prompt:
  assumes hist: "fetchShortHistory env w channel_id 10 = (Inr short, w1)"
    and mem: "fetchUserSummary env w1 user_id = (Inr summ, w2)"
    and gen: "generateReply env w guild_id channel_id user_id txt = (res, w')"
  shows "(let prompt =
            [\<lparr>role = System, content = persona\<rparr>,
             \<lparr>role = System, content =
                lit ''User long-term memory: '' @ (if summ = [] then lit ''(none)'' else summ)\<rparr>]
            @ short @ [\<lparr>role = User, content = txt\<rparr>]
         in run w w' = [EvSelectRecent channel_id 10 True, EvSelectSummary user_id True,
                        EvChat prompt 4 (llm_reply env (Suc (Suc (length (trace w)))) prompt)]
          \<and> short = rev (map select_role_content (recent_rows (messages w) channel_id 10))
          \<and> summ = (case user_memory w user_id of None \<Rightarrow> [] | Some m \<Rightarrow> summary m))"
proof -
  note w1 = fetchShortHistory_Inr [OF hist]
  note w2 = fetchUserSummary_Inr [OF mem]
  have prompt: "reply_messages summ short txt =
      [\<lparr>role = System, content = persona\<rparr>,
       \<lparr>role = System, content =
          lit ''User long-term memory: '' @ (if summ = [] then lit ''(none)'' else summ)\<rparr>]
      @ short @ [\<lparr>role = User, content = txt\<rparr>]"
    by (simp add: reply_messages_def or_else_def none_marker_def chat_message_eta)
  have "w' = snd (chat_content env w2 (reply_messages summ short txt) 4)"
    using gen hist mem by (auto simp: generateReply_def split: prod.splits sum.splits)
  then have "trace w' = trace w2 @ [EvChat (reply_messages summ short txt) 4
      (llm_reply env (length (trace w2)) (reply_messages summ short txt))]"
    by (simp add: chat_content_def log_event_def Let_def)
  then have "run w w' = [EvSelectRecent channel_id 10 True, EvSelectSummary user_id True,
      EvChat (reply_messages summ short txt) 4
        (llm_reply env (Suc (Suc (length (trace w)))) (reply_messages summ short txt))]"
    using w1 w2 by (simp add: run_def)
  then show ?thesis
    unfolding Let_def prompt [symmetric] using w1 w2 by simp
qed

text \<open>Three stored turns of the channel, no summary for the user.\<close>

theorem generateReply_prompt_witness:
  "fetchShortHistory env_ok w_hist (lit ''c'') 10 = (Inr ctx_c, w_read1)
   \<and> fetchUserSummary env_ok w_read1 (lit ''7'') = (Inr [], w_read2)
   \<and> run w_hist (snd (generateReply env_ok w_hist None (lit ''c'') (lit ''7'') (lit ''hi''))) =
       [EvSelectRecent (lit ''c'') 10 True, EvSelectSummary (lit ''7'') True,
        EvChat [\<lparr>role = System, content = persona\<rparr>,
                \<lparr>role = System, content = lit ''User long-term memory: '' @ lit ''(none)''\<rparr>,
                \<lparr>role = User, content = lit ''a''\<rparr>,
                \<lparr>role = Assistant, content = lit ''b''\<rparr>,
                \<lparr>role = User, content = lit ''e''\<rparr>,
                \<lparr>role = User, content = lit ''hi''\<rparr>] 4
          (LlmResp [Some (lit '' hello '')])]"
proof -
  have h: "fetchShortHistory env_ok w_hist (lit ''c'') 10 = (Inr ctx_c, w_read1)"
    by (rule read_history_example) (simp add: env_ok_def)
  have m: "fetchUserSummary env_ok w_read1 (lit ''7'') = (Inr [], w_read2)"
    by (rule read_summary_example) (simp add: env_ok_def)
  have g: "generateReply env_ok w_hist None (lit ''c'') (lit ''7'') (lit ''hi'') =
      (fst (generateReply env_ok w_hist None (lit ''c'') (lit ''7'') (lit ''hi'')),
       snd (generateReply env_ok w_hist None (lit ''c'') (lit ''7'') (lit ''hi'')))"
    by simp
  have llm: "\<And>n ms. llm_reply env_ok n ms = LlmResp [Some (lit '' hello '')]"
    by (simp add: env_ok_def)
  from generateReply_prompt [OF h m g]
  have "run w_hist (snd (generateReply env_ok w_hist None (lit ''c'') (lit ''7'') (lit ''hi''))) =
       [EvSelectRecent (lit ''c'') 10 True, EvSelectSummary (lit ''7'') True,
        EvChat ([\<lparr>role = System, content = persona\<rparr>,
                \<lparr>role = System, content = lit ''User long-term memory: '' @ lit ''(none)''\<rparr>]
                @ ctx_c @ [\<lparr>role = User, content = lit ''hi''\<rparr>]) 4
          (LlmResp [Some (lit '' hello '')])]"
    unfolding Let_def llm by simp
  then show ?thesis
    using h m by (simp add: ctx_c_def)
qed

text \<open>
  Claim C9 says that \<^verbatim>\<open>generateReply\<close> never returns the empty text.  When the
  first completion consists of white space, it returns the empty string.
\<close>

theorem generateReply_empty_counterexample:
  "fst (generateReply env_blank w_hist None (lit ''c'') (lit ''7'') (lit ''hi'')) = Inr []"
  by (simp add: generateReply_def store_defs call_defs env_blank_def trim_def is_ws_def lit_def nl_def)

text \<open>
  Claim C9, amended.  When the store returned the history and the summary,
  \<^verbatim>\<open>generateReply\<close> throws if the call of the language model is rejected, if the
  response has no completion, or if the content of the first completion is
  \<^verbatim>\<open>null\<close>; otherwise it returns the content of the first completion trimmed,
  which is the empty string exactly when that content is empty or white space
  only.
\<close>

theorem generateReply_result:
  assumes hist: "fetchShortHistory env w channel_id 10 = (Inr short, w1)"
    and mem: "fetchUserSummary env w1 user_id = (Inr summ, w2)"
    and gen: "generateReply env w guild_id channel_id user_id txt = (res, w')"
  shows "(case llm_reply env (length (trace w2)) (reply_messages summ short txt) of
            LlmFail \<Rightarrow> res = Inl CapabilityError
          | LlmResp [] \<Rightarrow> res = Inl TypeError
          | LlmResp (None # _) \<Rightarrow> res = Inl TypeError
          | LlmResp (Some out # _) \<Rightarrow>
              res = Inr (trim out) \<and> (res = Inr [] \<longleftrightarrow> (\<forall>c \<in> set out. is_ws c)))"
proof -
  have "res = (case first_content (llm_reply env (length (trace w2)) (reply_messages summ short txt)) of
                 Inl e \<Rightarrow> Inl e | Inr c \<Rightarrow> Inr (trim c))"
    using gen hist mem
    by (auto simp: generateReply_def chat_content_def Let_def split: prod.splits sum.splits)
  then show ?thesis
    by (auto simp: first_content_def trim_empty_iff
        split: llm_result.splits list.splits option.splits)
qed

text \<open>
  A blank completion, a rejected call, a response without completions and a
  \<^verbatim>\<open>null\<close> content.
\<close>

theorem generateReply_result_witness:
  "fetchShortHistory env_blank w_hist (lit ''c'') 10 = (Inr ctx_c, w_read1)
   \<and> fetchUserSummary env_blank w_read1 (lit ''7'') = (Inr [], w_read2)
   \<and> llm_reply env_blank (length (trace w_read2)) (reply_messages [] ctx_c (lit ''hi'')) =
       LlmResp [Some (lit ''  '' @ nl)]
   \<and> fst (generateReply env_blank w_hist None (lit ''c'') (lit ''7'') (lit ''hi'')) = Inr (trim (lit ''  '' @ nl))
   \<and> trim (lit ''  '' @ nl) = []
   \<and> fst (generateReply env_llm_down w_hist None (lit ''c'') (lit ''7'') (lit ''hi'')) = Inl CapabilityError
   \<and> fst (generateReply env_no_choice w_hist None (lit ''c'') (lit ''7'') (lit ''hi'')) = Inl TypeError
   \<and> fst (generateReply env_null w_hist None (lit ''c'') (lit ''7'') (lit ''hi'')) = Inl TypeError"
proof -
  have g: "\<And>env. generateReply env w_hist None (lit ''c'') (lit ''7'') (lit ''hi'') =
      (fst (generateReply env w_hist None (lit ''c'') (lit ''7'') (lit ''hi'')),
       snd (generateReply env w_hist None (lit ''c'') (lit ''7'') (lit ''hi'')))"
    by simp
  have hb: "fetchShortHistory env_blank w_hist (lit ''c'') 10 = (Inr ctx_c, w_read1)"
    and hd: "fetchShortHistory env_llm_down w_hist (lit ''c'') 10 = (Inr ctx_c, w_read1)"
    and hn: "fetchShortHistory env_no_choice w_hist (lit ''c'') 10 = (Inr ctx_c, w_read1)"
    and hu: "fetchShortHistory env_null w_hist (lit ''c'') 10 = (Inr ctx_c, w_read1)"
    by (rule read_history_example,
        simp add: env_blank_def env_llm_down_def env_no_choice_def env_null_def)+
  have mb: "fetchUserSummary env_blank w_read1 (lit ''7'') = (Inr [], w_read2)"
    and md: "fetchUserSummary env_llm_down w_read1 (lit ''7'') = (Inr [], w_read2)"
    and mn: "fetchUserSummary env_no_choice w_read1 (lit ''7'') = (Inr [], w_read2)"
    and mu: "fetchUserSummary env_null w_read1 (lit ''7'') = (Inr [], w_read2)"
    by (rule read_summary_example,
        simp add: env_blank_def env_llm_down_def env_no_choice_def env_null_def)+
  have rb: "llm_reply env_blank (length (trace w_read2)) (reply_messages [] ctx_c (lit ''hi'')) =
       LlmResp [Some (lit ''  '' @ nl)]"
    and rd: "llm_reply env_llm_down (length (trace w_read2)) (reply_messages [] ctx_c (lit ''hi'')) =
       LlmFail"
    and rn: "llm_reply env_no_choice (length (trace w_read2)) (reply_messages [] ctx_c (lit ''hi'')) =
       LlmResp []"
    and ru: "llm_reply env_null (length (trace w_read2)) (reply_messages [] ctx_c (lit ''hi'')) =
       LlmResp [None]"
    by (simp_all add: env_blank_def env_llm_down_def env_no_choice_def env_null_def)
  have e: "trim (lit ''  '' @ nl) = []"
    by (simp add: trim_def is_ws_def lit_def nl_def)
  from generateReply_result [OF hb mb g] generateReply_result [OF hd md g]
    generateReply_result [OF hn mn g] generateReply_result [OF hu mu g]
  have "fst (generateReply env_blank w_hist None (lit ''c'') (lit ''7'') (lit ''hi'')) = Inr (trim (lit ''  '' @ nl))"
    and "fst (generateReply env_llm_down w_hist None (lit ''c'') (lit ''7'') (lit ''hi'')) = Inl CapabilityError"
    and "fst (generateReply env_no_choice w_hist None (lit ''c'') (lit ''7'') (lit ''hi'')) = Inl TypeError"
    and "fst (generateReply env_null w_hist None (lit ''c'') (lit ''7'') (lit ''hi'')) = Inl TypeError"
    unfolding rb rd rn ru by simp_all
  then show ?thesis
    using hb mb rb e by blast
qed

subsection \<open>Cleaning the text of an addressed message\<close>

lemma replace_bang_append:
  assumes "t \<noteq> []" and "hd t \<noteq> 0x21" and "\<not> is_ws (hd t)"
  shows "replace_bang (a @ t @ r) = replace_bang a @ t @ r"
proof (cases a)
  case Nil
  then show ?thesis
    using assms by (cases t) simp_all
next
  case (Cons x xs)
  have "dropWhile is_ws (xs @ t @ r) = dropWhile is_ws xs @ t @ r"
    using assms by (cases t) (simp_all add: dropWhile_append)
  then show ?thesis
    using Cons by simp
qed

lemma replace_bang_suffix: "suffix (replace_bang s) s"
proof (cases s)
  case Nil
  then show ?thesis by simp
next
  case (Cons x xs)
  have "suffix (dropWhile is_ws xs) (x # xs)"
    by (rule suffix_ConsI) (rule suffix_dropWhile)
  then show ?thesis
    using Cons by auto
qed

lemma sublist_of_suffix: "sublist t s \<Longrightarrow> suffix s u \<Longrightarrow> sublist t u"
  by (auto simp: sublist_def suffix_def) (metis append.assoc)

lemma replace_first_absent:
  assumes "pat \<noteq> []"
  shows "\<not> sublist pat s \<Longrightarrow> replace_first pat rep s = s"
proof (induction s)
  case Nil
  then show ?case using assms by simp
next
  case (Cons c cs)
  then have "\<not> prefix pat (c # cs)" and "\<not> sublist pat cs"
    by (auto simp: sublist_Cons_right)
  then show ?case
    using Cons.IH by simp
qed

lemma prefix_within:
  assumes "prefix pat (a @ pat @ b)" and "a \<noteq> []"
  shows "prefix pat (a @ butlast pat)"
proof -
  have "length pat \<le> length (a @ butlast pat)"
    using assms(2) by (cases a) simp_all
  moreover have "a @ pat @ b = (a @ butlast pat) @ (drop (length pat - 1) pat @ b)"
    by (simp add: butlast_conv_take)
  ultimately show ?thesis
    using assms(1) by (metis prefix_length_prefix prefixI)
qed

lemma replace_first_at:
  assumes "pat \<noteq> []"
  shows "\<not> sublist pat (a @ butlast pat) \<Longrightarrow> replace_first pat rep (a @ pat @ b) = a @ rep @ b"
proof (induction a)
  case Nil
  obtain p ps where p: "pat = p # ps"
    using assms by (cases pat) simp_all
  have "replace_first pat rep (pat @ b) = rep @ drop (length pat) (pat @ b)"
    unfolding p by simp
  then show ?case by simp
next
  case (Cons x xs)
  have "\<not> prefix pat ((x # xs) @ pat @ b)"
    using Cons.prems prefix_within [of pat "x # xs" b] by auto
  moreover have "\<not> sublist pat (xs @ butlast pat)"
    using Cons.prems by (auto simp: sublist_Cons_right)
  ultimately show ?case
    using Cons.IH by simp
qed

lemma drop_within: "n \<le> length xs \<Longrightarrow> drop n (xs @ ys) = drop n xs @ ys"
  by simp

lemma replace_first_keeps_second:
  assumes "pat \<noteq> []" and "sublist pat m"
  shows "sublist pat (replace_first pat [] (a @ pat @ m))"
proof (induction a)
  case Nil
  obtain p ps where p: "pat = p # ps"
    using assms by (cases pat) simp_all
  have "replace_first pat [] (pat @ m) = drop (length pat) (pat @ m)"
    unfolding p by simp
  then show ?case using assms by simp
next
  case (Cons x xs)
  show ?case
  proof (cases "prefix pat ((x # xs) @ pat @ m)")
    case True
    have "drop (length pat) (((x # xs) @ pat) @ m) = drop (length pat) ((x # xs) @ pat) @ m"
      by (rule drop_within) simp
    then have "suffix m (drop (length pat) ((x # xs) @ pat @ m))"
      unfolding suffix_def by (metis append.assoc)
    then have "sublist pat (drop (length pat) ((x # xs) @ pat @ m))"
      using assms(2) by (rule sublist_of_suffix [rotated])
    then show ?thesis
      using True by simp
  next
    case False
    then show ?thesis
      using Cons.IH by (simp add: sublist_Cons_right)
  qed
qed

lemma dropWhile_keeps:
  assumes "t \<noteq> []" and "\<not> P (hd t)" and "sublist t s"
  shows "sublist t (dropWhile P s)"
proof -
  obtain ps ss where s: "s = ps @ t @ ss"
    using assms(3) by (auto simp: sublist_def)
  have "dropWhile P (t @ ss) = t @ ss"
    using assms by (cases t) simp_all
  then have "dropWhile P s = dropWhile P ps @ t @ ss"
    unfolding s by (simp add: dropWhile_append)
  then show ?thesis
    by simp
qed

lemma trim_keeps:
  assumes "t \<noteq> []" and "\<not> is_ws (hd t)" and "\<not> is_ws (last t)" and "sublist t s"
  shows "sublist t (trim s)"
proof -
  have "sublist t (dropWhile is_ws s)"
    using assms by (intro dropWhile_keeps)
  then have "sublist (rev t) (rev (dropWhile is_ws s))"
    by simp
  moreover have "\<not> is_ws (hd (rev t))"
    using assms by (simp add: hd_rev)
  ultimately have "sublist (rev t) (dropWhile is_ws (rev (dropWhile is_ws s)))"
    using assms(1) by (intro dropWhile_keeps) simp_all
  then show ?thesis
    unfolding trim_def by (simp add: sublist_rev_left)
qed

lemma mention_ends:
  "mention b \<noteq> []" "hd (mention b) = 0x3C" "last (mention b) = 0x3E"
  "nick_mention b \<noteq> []" "hd (nick_mention b) = 0x3C" "last (nick_mention b) = 0x3E"
  by (simp_all add: mention_def nick_mention_def lit_def)

lemma angle_not_ws: "\<not> is_ws 0x3C" "\<not> is_ws 0x3E"
  by (simp_all add: is_ws_def)

lemma sublist_nonempty: "sublist t s \<Longrightarrow> t \<noteq> [] \<Longrightarrow> s \<noteq> []"
  by auto

lemma userText_without_mention:
  assumes "\<not> sublist (mention bot_id) raw"
  shows "userText bot_id raw = trim (replace_bang raw)"
proof -
  have "\<not> sublist (mention bot_id) (replace_bang raw)"
    using assms sublist_of_suffix [OF _ replace_bang_suffix] by blast
  then show ?thesis
    by (simp add: userText_def replace_first_absent mention_ends)
qed

lemma replace_bang_before_mention:
  "replace_bang (a @ mention bot_id @ b) = replace_bang a @ mention bot_id @ b"
  by (rule replace_bang_append) (simp_all add: mention_ends angle_not_ws)

lemma userText_first_mention:
  assumes "\<not> sublist (mention bot_id) (a @ butlast (mention bot_id))"
  shows "userText bot_id (a @ mention bot_id @ b) = trim (replace_bang a @ b)"
proof -
  have "suffix (replace_bang a @ butlast (mention bot_id)) (a @ butlast (mention bot_id))"
    using replace_bang_suffix [of a] by (auto simp: suffix_def)
  then have "\<not> sublist (mention bot_id) (replace_bang a @ butlast (mention bot_id))"
    using assms sublist_of_suffix by blast
  then have "replace_first (mention bot_id) [] (replace_bang a @ mention bot_id @ b) =
      replace_bang a @ [] @ b"
    by (intro replace_first_at) (simp_all add: mention_ends)
  then show ?thesis
    by (simp add: userText_def replace_bang_before_mention)
qed

lemma userText_nick_mention:
  assumes nick: "sublist (nick_mention bot_id) raw"
    and plain: "\<not> sublist (mention bot_id) raw"
  shows "sublist (nick_mention bot_id) (userText bot_id raw)"
proof -
  obtain ps ss where "raw = ps @ nick_mention bot_id @ ss"
    using nick by (auto simp: sublist_def)
  then have "replace_bang raw = replace_bang ps @ nick_mention bot_id @ ss"
    by (simp add: replace_bang_append mention_ends angle_not_ws)
  then have "sublist (nick_mention bot_id) (replace_bang raw)"
    by simp
  then have "sublist (nick_mention bot_id) (trim (replace_bang raw))"
    by (intro trim_keeps) (simp_all add: mention_ends angle_not_ws)
  then show ?thesis
    using plain by (simp add: userText_without_mention)
qed

lemma userText_second_mention:
  "sublist (mention bot_id) (userText bot_id (a @ mention bot_id @ m @ mention bot_id @ b))"
proof -
  have "sublist (mention bot_id) (m @ mention bot_id @ b)"
    by simp
  then have "sublist (mention bot_id)
      (replace_first (mention bot_id) [] (replace_bang a @ mention bot_id @ m @ mention bot_id @ b))"
    by (intro replace_first_keeps_second) (simp_all add: mention_ends)
  then have "sublist (mention bot_id)
      (replace_first (mention bot_id) [] (replace_bang (a @ mention bot_id @ m @ mention bot_id @ b)))"
    by (simp add: replace_bang_before_mention)
  then show ?thesis
    unfolding userText_def by (intro trim_keeps) (simp_all add: mention_ends angle_not_ws)
qed

lemma replace_bang_strips:
  assumes "\<forall>c \<in> set ws. is_ws c" and "rest = [] \<or> \<not> is_ws (hd rest)"
  shows "replace_bang (lit ''!'' @ ws @ rest) = rest"
proof -
  have "dropWhile is_ws rest = rest"
    using assms(2) by (cases rest) simp_all
  then have "dropWhile is_ws (ws @ rest) = rest"
    using assms(1) by (simp add: dropWhile_append)
  then show ?thesis
    by (simp add: lit_def)
qed

lemma replace_bang_other: "\<not> startsWith raw (lit ''!'') \<Longrightarrow> replace_bang raw = raw"
  by (cases raw) (simp_all add: startsWith_def lit_def)

lemma generateReply_trace:
  assumes hist: "fetchShortHistory env w channel_id 10 = (Inr short, w1)"
    and mem: "fetchUserSummary env w1 user_id = (Inr summ, w2)"
    and gen: "generateReply env w guild_id channel_id user_id txt = (res, w')"
  shows "trace w' = trace w2 @ [EvChat (reply_messages summ short txt) 4
      (llm_reply env (length (trace w2)) (reply_messages summ short txt))]"
proof -
  have "w' = snd (chat_content env w2 (reply_messages summ short txt) 4)"
    using gen hist mem by (auto simp: generateReply_def split: prod.splits sum.splits)
  then show ?thesis
    by (simp add: chat_content_def log_event_def Let_def)
qed

lemma answer_after_generate:
  assumes "generateReply env w (msg_guildId msg) (msg_channelId msg) (msg_author_id msg) t = (x, v)"
    and "answer env b w msg t = (r, v')"
  shows "grows v v'"
  using assms unfolding answer_def
  by (auto simp: grows_refl split: prod.splits sum.splits
      dest!: channel_send_grows insert_message_grows upsertUserSummary_grows
      intro: grows_trans)

lemma cleaned_text_is_prompted:
  assumes author: "\<not> msg_author_bot msg"
    and ins: "insert_message env w (msg_guildId msg) (msg_channelId msg) (msg_author_id msg)
                User (msg_content msg) = (Inr (), w1)"
    and addr: "addressed msg"
    and nonempty: "userText bot_id (msg_content msg) \<noteq> []"
    and hist: "fetchShortHistory env w1 (msg_channelId msg) 10 = (Inr short, w2)"
    and mem: "fetchUserSummary env w2 (msg_author_id msg) = (Inr summ, w3)"
    and final: "messageCreate env bot_id w msg = (res, w')"
  shows "prefix (trace w3 @ [EvChat (reply_messages summ short (userText bot_id (msg_content msg))) 4
            (llm_reply env (length (trace w3))
               (reply_messages summ short (userText bot_id (msg_content msg))))])
          (trace w')"
proof -
  let ?t = "userText bot_id (msg_content msg)"
  obtain x v where gen: "generateReply env w1 (msg_guildId msg) (msg_channelId msg)
      (msg_author_id msg) ?t = (x, v)"
    by (cases "generateReply env w1 (msg_guildId msg) (msg_channelId msg) (msg_author_id msg) ?t")
  obtain r v' where ans: "answer env bot_id w1 msg ?t = (r, v')"
    by (cases "answer env bot_id w1 msg ?t")
  have "grows v v'"
    using gen ans by (rule answer_after_generate)
  moreover have "grows v' w'"
    using author ins addr nonempty ans final
    by (auto simp: messageCreate_def Let_def grows_refl split: sum.splits dest: recover_grows)
  ultimately have "prefix (trace v) (trace w')"
    by (auto simp: grows_def)
  then show ?thesis
    using generateReply_trace [OF hist mem gen] by simp
qed

text \<open>
  Claim C10.  The text handed to the reply generator is the raw content with a
  leading \<^verbatim>\<open>!\<close> and the white space after it removed, then the first
  occurrence of \<^verbatim>\<open><@botId>\<close> removed, then trimmed; nothing else is removed.
  So a content that holds the nickname form \<^verbatim>\<open><@!botId>\<close> and not the plain
  form, and a content that holds the plain form twice, give a non-empty text
  that still holds the mention.  For an addressed message with a non-empty text
  whose user turn was inserted and whose store reads succeed, the handler calls
  the language model with a prompt whose last message is that text, as a user
  message.
\<close>

theorem cleaning_keeps_other_mentions:
  "(\<not> startsWith raw (lit ''!'') \<longrightarrow> replace_bang raw = raw)
   \<and> (\<forall>ws rest. (\<forall>c \<in> set ws. is_ws c) \<and> (rest = [] \<or> \<not> is_ws (hd rest)) \<longrightarrow>
         replace_bang (lit ''!'' @ ws @ rest) = rest)
   \<and> (\<not> sublist (mention bot_id) raw \<longrightarrow> userText bot_id raw = trim (replace_bang raw))
   \<and> (\<forall>a b. raw = a @ mention bot_id @ b
          \<and> \<not> sublist (mention bot_id) (a @ butlast (mention bot_id)) \<longrightarrow>
         userText bot_id raw = trim (replace_bang a @ b))
   \<and> (sublist (nick_mention bot_id) raw \<and> \<not> sublist (mention bot_id) raw \<longrightarrow>
         userText bot_id raw \<noteq> [] \<and> sublist (nick_mention bot_id) (userText bot_id raw))
   \<and> (\<forall>a m b. raw = a @ mention bot_id @ m @ mention bot_id @ b \<longrightarrow>
         userText bot_id raw \<noteq> [] \<and> sublist (mention bot_id) (userText bot_id raw))
   \<and> (\<forall>env w msg w1 short w2 summ w3 res w'.
         msg_content msg = raw \<and> \<not> msg_author_bot msg
       \<and> insert_message env w (msg_guildId msg) (msg_channelId msg) (msg_author_id msg)
            User (msg_content msg) = (Inr (), w1)
       \<and> addressed msg \<and> userText bot_id raw \<noteq> []
       \<and> fetchShortHistory env w1 (msg_channelId msg) 10 = (Inr short, w2)
       \<and> fetchUserSummary env w2 (msg_author_id msg) = (Inr summ, w3)
       \<and> messageCreate env bot_id w msg = (res, w') \<longrightarrow>
         prefix (trace w3 @ [EvChat (reply_messages summ short (userText bot_id raw)) 4
                   (llm_reply env (length (trace w3))
                      (reply_messages summ short (userText bot_id raw)))])
           (trace w')
       \<and> last (reply_messages summ short (userText bot_id raw)) =
           \<lparr>role = User, content = userText bot_id raw\<rparr>)"
proof -
  have nick: "userText bot_id raw \<noteq> [] \<and> sublist (nick_mention bot_id) (userText bot_id raw)"
    if "sublist (nick_mention bot_id) raw" and "\<not> sublist (mention bot_id) raw"
    using userText_nick_mention [OF that] sublist_nonempty mention_ends(4) by blast
  have twice: "userText bot_id raw \<noteq> [] \<and> sublist (mention bot_id) (userText bot_id raw)"
    if "raw = a @ mention bot_id @ m @ mention bot_id @ b" for a m b
    unfolding that using userText_second_mention sublist_nonempty mention_ends(1) by blast
  have c1: "\<not> startsWith raw (lit ''!'') \<longrightarrow> replace_bang raw = raw"
    by (simp add: replace_bang_other)
  have c2: "\<forall>ws rest. (\<forall>c \<in> set ws. is_ws c) \<and> (rest = [] \<or> \<not> is_ws (hd rest)) \<longrightarrow>
         replace_bang (lit ''!'' @ ws @ rest) = rest"
    by (simp add: replace_bang_strips)
  have c3: "\<not> sublist (mention bot_id) raw \<longrightarrow> userText bot_id raw = trim (replace_bang raw)"
    by (simp add: userText_without_mention)
  have c4: "\<forall>a b. raw = a @ mention bot_id @ b
          \<and> \<not> sublist (mention bot_id) (a @ butlast (mention bot_id)) \<longrightarrow>
         userText bot_id raw = trim (replace_bang a @ b)"
    using userText_first_mention by blast
  have c5: "sublist (nick_mention bot_id) raw \<and> \<not> sublist (mention bot_id) raw \<longrightarrow>
         userText bot_id raw \<noteq> [] \<and> sublist (nick_mention bot_id) (userText bot_id raw)"
    using nick by blast
  have c6: "\<forall>a m b. raw = a @ mention bot_id @ m @ mention bot_id @ b \<longrightarrow>
         userText bot_id raw \<noteq> [] \<and> sublist (mention bot_id) (userText bot_id raw)"
    using twice by blast
  have c7: "\<forall>env w msg w1 short w2 summ w3 res w'.
         msg_content msg = raw \<and> \<not> msg_author_bot msg
       \<and> insert_message env w (msg_guildId msg) (msg_channelId msg) (msg_author_id msg)
            User (msg_content msg) = (Inr (), w1)
       \<and> addressed msg \<and> userText bot_id raw \<noteq> []
       \<and> fetchShortHistory env w1 (msg_channelId msg) 10 = (Inr short, w2)
       \<and> fetchUserSummary env w2 (msg_author_id msg) = (Inr summ, w3)
       \<and> messageCreate env bot_id w msg = (res, w') \<longrightarrow>
         prefix (trace w3 @ [EvChat (reply_messages summ short (userText bot_id raw)) 4
                   (llm_reply env (length (trace w3))
                      (reply_messages summ short (userText bot_id raw)))])
           (trace w')
       \<and> last (reply_messages summ short (userText bot_id raw)) =
           \<lparr>role = User, content = userText bot_id raw\<rparr>"
  proof (intro allI impI, elim conjE)
    fix env w msg w1 short w2 summ w3 res w'
    assume raw: "msg_content msg = raw" and author: "\<not> msg_author_bot msg"
      and ins: "insert_message env w (msg_guildId msg) (msg_channelId msg) (msg_author_id msg)
            User (msg_content msg) = (Inr (), w1)"
      and addr: "addressed msg" and nonempty: "userText bot_id raw \<noteq> []"
      and hist: "fetchShortHistory env w1 (msg_channelId msg) 10 = (Inr short, w2)"
      and mem: "fetchUserSummary env w2 (msg_author_id msg) = (Inr summ, w3)"
      and final: "messageCreate env bot_id w msg = (res, w')"
    have "last (reply_messages summ short (userText bot_id raw)) =
        \<lparr>role = User, content = userText bot_id raw\<rparr>"
      by (simp add: reply_messages_def)
    moreover from nonempty have "userText bot_id (msg_content msg) \<noteq> []"
      by (simp add: raw)
    from cleaned_text_is_prompted [OF author ins addr this hist mem final]
    have "prefix (trace w3 @ [EvChat (reply_messages summ short (userText bot_id raw)) 4
                   (llm_reply env (length (trace w3))
                      (reply_messages summ short (userText bot_id raw)))])
           (trace w')"
      by (simp add: raw)
    ultimately show "prefix (trace w3 @ [EvChat (reply_messages summ short (userText bot_id raw)) 4
                   (llm_reply env (length (trace w3))
                      (reply_messages summ short (userText bot_id raw)))])
           (trace w')
       \<and> last (reply_messages summ short (userText bot_id raw)) =
           \<lparr>role = User, content = userText bot_id raw\<rparr>"
      by simp
  qed
  from c1 c2 c3 c4 c5 c6 c7 show ?thesis
    by (intro conjI)
qed

text \<open>
  The contents \<^verbatim>\<open><@!42> hi\<close>, \<^verbatim>\<open><@42> <@42> hi\<close> and \<^verbatim>\<open>! hi\<close> for bot 42.
\<close>

theorem cleaning_keeps_other_mentions_witness:
  "\<not> startsWith (lit ''<@!42> hi'') (lit ''!'')
   \<and> sublist (nick_mention bot0) (lit ''<@!42> hi'')
   \<and> \<not> sublist (mention bot0) (lit ''<@!42> hi'')
   \<and> userText bot0 (lit ''<@!42> hi'') = lit ''<@!42> hi''
   \<and> sublist (nick_mention bot0) (userText bot0 (lit ''<@!42> hi''))
   \<and> lit ''<@42> <@42> hi'' = [] @ mention bot0 @ lit '' '' @ mention bot0 @ lit '' hi''
   \<and> \<not> sublist (mention bot0) ([] @ butlast (mention bot0))
   \<and> userText bot0 (lit ''<@42> <@42> hi'') = trim (replace_bang [] @ lit '' '' @ mention bot0 @ lit '' hi'')
   \<and> userText bot0 (lit ''<@42> <@42> hi'') = lit ''<@42> hi''
   \<and> sublist (mention bot0) (userText bot0 (lit ''<@42> <@42> hi''))
   \<and> list_all is_ws (lit '' '') \<and> \<not> is_ws (hd (lit ''hi''))
   \<and> replace_bang (lit ''!'' @ lit '' '' @ lit ''hi'') = lit ''hi''
   \<and> msg_content msg_nick = lit ''<@!42> hi'' \<and> \<not> msg_author_bot msg_nick
   \<and> insert_message env_ok w_hist (msg_guildId msg_nick) (msg_channelId msg_nick)
        (msg_author_id msg_nick) User (msg_content msg_nick) = (Inr (), stage1 env_ok w_hist msg_nick)
   \<and> addressed msg_nick
   \<and> fetchShortHistory env_ok (stage1 env_ok w_hist msg_nick) (msg_channelId msg_nick) 10 =
        (Inr ctx_nick, w_nick2)
   \<and> fetchUserSummary env_ok w_nick2 (msg_author_id msg_nick) = (Inr [], w_nick3)
   \<and> prefix (trace w_nick3 @
         [EvChat (reply_messages [] ctx_nick (userText bot0 (lit ''<@!42> hi''))) 4
            (llm_reply env_ok (length (trace w_nick3))
               (reply_messages [] ctx_nick (userText bot0 (lit ''<@!42> hi''))))])
        (trace (snd (messageCreate env_ok bot0 w_hist msg_nick)))
   \<and> last (reply_messages [] ctx_nick (userText bot0 (lit ''<@!42> hi''))) =
        \<lparr>role = User, content = userText bot0 (lit ''<@!42> hi'')\<rparr>"
proof -
  note N = cleaning_keeps_other_mentions [of "lit ''<@!42> hi''" bot0]
  note T = cleaning_keeps_other_mentions [of "lit ''<@42> <@42> hi''" bot0]
  have n1: "\<not> startsWith (lit ''<@!42> hi'') (lit ''!'')"
    by (simp add: startsWith_def lit_def)
  have n2: "sublist (nick_mention bot0) (lit ''<@!42> hi'')"
    by (simp add: nick_mention_def bot0_def lit_def sublist_Cons_right)
  have n3: "\<not> sublist (mention bot0) (lit ''<@!42> hi'')"
    by (simp add: mention_def bot0_def lit_def sublist_Cons_right)
  have n4: "userText bot0 (lit ''<@!42> hi'') = lit ''<@!42> hi''"
    by (simp add: userText_def mention_def bot0_def trim_def is_ws_def lit_def)
  from N n2 n3 have n5: "sublist (nick_mention bot0) (userText bot0 (lit ''<@!42> hi''))"
    by blast
  have t1: "lit ''<@42> <@42> hi'' = [] @ mention bot0 @ lit '' '' @ mention bot0 @ lit '' hi''"
    by (simp add: mention_def bot0_def lit_def)
  have t2: "\<not> sublist (mention bot0) ([] @ butlast (mention bot0))"
    by (simp add: mention_def bot0_def lit_def sublist_Cons_right)
  have t1': "lit ''<@42> <@42> hi'' = [] @ mention bot0 @ (lit '' '' @ mention bot0 @ lit '' hi'')"
    using t1 by simp
  from T t1' t2
  have t3: "userText bot0 (lit ''<@42> <@42> hi'') = trim (replace_bang [] @ lit '' '' @ mention bot0 @ lit '' hi'')"
    by blast
  have t4: "userText bot0 (lit ''<@42> <@42> hi'') = lit ''<@42> hi''"
    by (simp add: userText_def mention_def bot0_def trim_def is_ws_def lit_def)
  from T t1 have t5: "sublist (mention bot0) (userText bot0 (lit ''<@42> <@42> hi''))"
    by blast
  have b0: "list_all is_ws (lit '' '')" and b2: "\<not> is_ws (hd (lit ''hi''))"
    by (simp_all add: is_ws_def lit_def)
  from b0 have b1: "\<forall>c \<in> set (lit '' ''). is_ws c"
    by (simp add: list_all_iff)
  from N b1 b2 have b3: "replace_bang (lit ''!'' @ lit '' '' @ lit ''hi'') = lit ''hi''"
    by blast
  have h1: "msg_content msg_nick = lit ''<@!42> hi''" and h2: "\<not> msg_author_bot msg_nick"
    and h4: "addressed msg_nick"
    by (simp_all add: msg_nick_def addressed_def)
  have h3: "insert_message env_ok w_hist (msg_guildId msg_nick) (msg_channelId msg_nick)
        (msg_author_id msg_nick) User (msg_content msg_nick) = (Inr (), stage1 env_ok w_hist msg_nick)"
    unfolding stage1_def
    by (rule pair_fst_snd) (simp add: insert_message_def env_ok_def w_hist_def)
  have h5: "fetchShortHistory env_ok (stage1 env_ok w_hist msg_nick) (msg_channelId msg_nick) 10 =
        (Inr ctx_nick, w_nick2)"
    by (simp add: stage1_def store_defs env_ok_def w_hist_def msg_nick_def ctx_nick_def ctx_c_def
        w_nick2_def lit_def)
  have h6: "fetchUserSummary env_ok w_nick2 (msg_author_id msg_nick) = (Inr [], w_nick3)"
    by (simp add: stage1_def store_defs env_ok_def w_hist_def msg_nick_def w_nick2_def w_nick3_def
        lit_def)
  have h7: "userText bot0 (lit ''<@!42> hi'') \<noteq> []"
    unfolding n4 by (simp add: lit_def)
  have h8: "messageCreate env_ok bot0 w_hist msg_nick =
      (fst (messageCreate env_ok bot0 w_hist msg_nick), snd (messageCreate env_ok bot0 w_hist msg_nick))"
    by simp
  note N7 = N [THEN conjunct2, THEN conjunct2, THEN conjunct2, THEN conjunct2, THEN conjunct2,
    THEN conjunct2, rule_format]
  have p: "prefix (trace w_nick3 @
         [EvChat (reply_messages [] ctx_nick (userText bot0 (lit ''<@!42> hi''))) 4
            (llm_reply env_ok (length (trace w_nick3))
               (reply_messages [] ctx_nick (userText bot0 (lit ''<@!42> hi''))))])
        (trace (snd (messageCreate env_ok bot0 w_hist msg_nick)))
   \<and> last (reply_messages [] ctx_nick (userText bot0 (lit ''<@!42> hi''))) =
        \<lparr>role = User, content = userText bot0 (lit ''<@!42> hi'')\<rparr>"
    by (rule N7) (intro conjI h7, rule h1, rule h2, rule h3, rule h4, rule h5, rule h6, rule h8)
  show ?thesis
    using n1 n2 n3 n4 n5 t1 t2 t3 t4 t5 b0 b2 b3 h1 h2 h3 h4 h5 h6 p
    by (intro conjI) (blast+)?
qed

end
